theory Spec2Isabelle
  imports Main "HOL-Library.Sublist" "HOL-Library.AList"
begin

section \<open>Text\<close>

text \<open>
  A Python \<open>str\<close> is a sequence of Unicode code points; \<open>len\<close> and slicing count code
  points. A text is therefore a list of code points, and an ASCII literal of the source is
  written \<open>ascii ''...''\<close>.
\<close>

type_synonym ustring = "nat list"

definition ascii :: "string \<Rightarrow> ustring" where
  "ascii s = map of_char s"

text \<open>
  The characters matched by \<open>\s\<close> in a \<open>str\<close> pattern: tab to carriage return, the
  separators 28 to 31, space, and the Unicode white space beyond ASCII.
\<close>

definition is_space :: "nat \<Rightarrow> bool" where
  "is_space c \<longleftrightarrow>
     (9 \<le> c \<and> c \<le> 13) \<or> (28 \<le> c \<and> c \<le> 32) \<or> c = 0x85 \<or> c = 0xA0 \<or> c = 0x1680 \<or>
     (0x2000 \<le> c \<and> c \<le> 0x200A) \<or> c = 0x2028 \<or> c = 0x2029 \<or> c = 0x202F \<or>
     c = 0x205F \<or> c = 0x3000"

text \<open>\<open>find_sub pat s\<close> splits \<open>s\<close> around the first occurrence of \<open>pat\<close>.\<close>

fun find_sub :: "'a list \<Rightarrow> 'a list \<Rightarrow> ('a list \<times> 'a list) option" where
  "find_sub pat [] = (if pat = [] then Some ([], []) else None)"
| "find_sub pat (x # xs) =
     (if prefix pat (x # xs) then Some ([], drop (length pat) (x # xs))
      else map_option (\<lambda>(before, after). (x # before, after)) (find_sub pat xs))"

definition rstrip :: "ustring \<Rightarrow> ustring" where
  "rstrip s = rev (dropWhile is_space (rev s))"

definition lstrip :: "ustring \<Rightarrow> ustring" where
  "lstrip s = dropWhile is_space s"


section \<open>The two regular expressions of the extractor\<close>

text \<open>
  \<open>re.search\<close> is a backtracking matcher. The two patterns of the source are sequences of
  single characters, greedy stars over a character class and one lazy, capturing star:
  \<^verbatim>\<open>```json\s*(.*?)\s*```\<close> and \<^verbatim>\<open>\{.*\}\<close>, both under \<open>re.DOTALL\<close>, where \<open>.\<close> matches
  every character.
\<close>

datatype cls = Lit nat | Space | Any

fun cls_ok :: "cls \<Rightarrow> nat \<Rightarrow> bool" where
  "cls_ok (Lit c) x = (x = c)"
| "cls_ok Space x = is_space x"
| "cls_ok Any x = True"

datatype item = One cls | Greedy cls | LazyGroup cls

text \<open>
  A match is the pair of the whole matched text, \<open>group(0)\<close>, and the text of the capturing
  group, \<open>group(1)\<close>. \<open>rmatch ps s\<close> matches the pattern \<open>ps\<close> at the start of \<open>s\<close> and
  returns the first match in backtracking order: a greedy star tries one more character
  before it tries the rest of the pattern, a lazy star tries the rest of the pattern first.
\<close>

type_synonym rematch = "ustring \<times> ustring"

definition group0 :: "rematch \<Rightarrow> ustring" where
  "group0 m = fst m"

definition group1 :: "rematch \<Rightarrow> ustring" where
  "group1 m = snd m"

fun rmatch :: "item list \<Rightarrow> ustring \<Rightarrow> rematch option" where
  "rmatch [] s = Some ([], [])"
| "rmatch (One c # ps) [] = None"
| "rmatch (One c # ps) (x # xs) =
     (if cls_ok c x then map_option (\<lambda>(g0, g1). (x # g0, g1)) (rmatch ps xs) else None)"
| "rmatch (Greedy c # ps) [] = rmatch ps []"
| "rmatch (Greedy c # ps) (x # xs) =
     (if cls_ok c x then
        (case rmatch (Greedy c # ps) xs of
           Some (g0, g1) \<Rightarrow> Some (x # g0, g1)
         | None \<Rightarrow> rmatch ps (x # xs))
      else rmatch ps (x # xs))"
| "rmatch (LazyGroup c # ps) [] = map_option (\<lambda>(g0, g1). (g0, [])) (rmatch ps [])"
| "rmatch (LazyGroup c # ps) (x # xs) =
     (case rmatch ps (x # xs) of
        Some (g0, g1) \<Rightarrow> Some (g0, [])
      | None \<Rightarrow>
          (if cls_ok c x
           then map_option (\<lambda>(g0, g1). (x # g0, x # g1)) (rmatch (LazyGroup c # ps) xs)
           else None))"

text \<open>\<open>re.search\<close>: the match at the leftmost position that has one.\<close>

fun re_search :: "item list \<Rightarrow> ustring \<Rightarrow> rematch option" where
  "re_search ps [] = rmatch ps []"
| "re_search ps (x # xs) =
     (case rmatch ps (x # xs) of Some m \<Rightarrow> Some m | None \<Rightarrow> re_search ps xs)"

definition lits :: "ustring \<Rightarrow> item list" where
  "lits s = map (\<lambda>c. One (Lit c)) s"

definition fence :: ustring where
  "fence = ascii ''```''"

definition fence_json :: ustring where
  "fence_json = ascii ''```json''"

definition lbrace :: nat where
  "lbrace = 123"

definition rbrace :: nat where
  "rbrace = 125"

definition fenced_pattern :: "item list" where
  "fenced_pattern = lits fence_json @ [Greedy Space, LazyGroup Any, Greedy Space] @ lits fence"

definition brace_pattern :: "item list" where
  "brace_pattern = [One (Lit lbrace), Greedy Any, One (Lit rbrace)]"


section \<open>Values and exceptions\<close>

text \<open>
  The values the program handles are what \<open>json.loads\<close> returns and the dictionaries the
  code builds itself. A dictionary keeps its keys in insertion order. \<open>'f\<close> stands for the
  floats of Python.
\<close>

datatype 'f json =
    JNull
  | JBool bool
  | JInt int
  | JFloat 'f
  | JStr ustring
  | JArr "'f json list"
  | JObj "(ustring \<times> 'f json) list"

text \<open>
  Exceptions, all of them instances of \<open>Exception\<close>, which is what \<open>except Exception\<close>
  catches; \<open>except json.JSONDecodeError\<close> catches the first class only. The text is
  \<open>str(e)\<close>. \<open>LibraryError\<close> is any other exception class a library call raises.
\<close>

datatype exn =
    JSONDecodeError ustring
  | KeyError ustring
  | ValueError ustring
  | TypeError ustring
  | LibraryError ustring

fun str_of :: "exn \<Rightarrow> ustring" where
  "str_of (JSONDecodeError m) = m"
| "str_of (KeyError m) = m"
| "str_of (ValueError m) = m"
| "str_of (TypeError m) = m"
| "str_of (LibraryError m) = m"

fun is_decode_error :: "exn \<Rightarrow> bool" where
  "is_decode_error (JSONDecodeError m) = True"
| "is_decode_error e = False"


section \<open>The response extractor\<close>

text \<open>
  \<open>json.loads\<close> is the standard library's decoder: the extractor takes it as the
  parameter \<open>loads\<close>, which returns a value or raises. One block
  \<^verbatim>\<open>try: return json.loads(s)  except json.JSONDecodeError: pass\<close>
  returns, lets another exception through, or falls to the next statement.
\<close>

datatype 'v stage = Return 'v | Raise exn | Pass

definition try_loads :: "(ustring \<Rightarrow> exn + 'f json) \<Rightarrow> ustring \<Rightarrow> 'f json stage" where
  "try_loads loads s =
     (case loads s of
        Inr v \<Rightarrow> Return v
      | Inl e \<Rightarrow> if is_decode_error e then Pass else Raise e)"

definition error_marker :: ustring where
  "error_marker = ascii ''JSON'' @ [0x89E3, 0x6790, 0x30A8, 0x30E9, 0x30FC]"

definition raw_response_of :: "ustring \<Rightarrow> ustring" where
  "raw_response_of response_text =
     (if length response_text > 500 then take 500 response_text @ ascii ''...''
      else response_text)"

definition parse_failure :: "ustring \<Rightarrow> 'f json" where
  "parse_failure response_text =
     JObj [(ascii ''error'', JStr error_marker),
           (ascii ''raw_response'', JStr (raw_response_of response_text))]"

text \<open>
  The result is paired with the arguments of the calls of \<open>json.loads\<close>, in the order
  they are made.
\<close>

definition extract_json_from_response ::
  "(ustring \<Rightarrow> exn + 'f json) \<Rightarrow> ustring \<Rightarrow> (exn + 'f json) \<times> ustring list" where
  "extract_json_from_response loads response_text =
     (case try_loads loads response_text of
        Return v \<Rightarrow> (Inr v, [response_text])
      | Raise e \<Rightarrow> (Inl e, [response_text])
      | Pass \<Rightarrow>
          (let json_match = re_search fenced_pattern response_text;
               tried2 = (case json_match of Some m \<Rightarrow> [group1 m] | None \<Rightarrow> [])
           in case (case json_match of
                      Some m \<Rightarrow> try_loads loads (group1 m)
                    | None \<Rightarrow> Pass) of
                Return v \<Rightarrow> (Inr v, response_text # tried2)
              | Raise e \<Rightarrow> (Inl e, response_text # tried2)
              | Pass \<Rightarrow>
                  (let brace_match = re_search brace_pattern response_text;
                       tried3 = (case brace_match of Some m \<Rightarrow> [group0 m] | None \<Rightarrow> [])
                   in case (case brace_match of
                              Some m \<Rightarrow> try_loads loads (group0 m)
                            | None \<Rightarrow> Pass) of
                        Return v \<Rightarrow> (Inr v, response_text # tried2 @ tried3)
                      | Raise e \<Rightarrow> (Inl e, response_text # tried2 @ tried3)
                      | Pass \<Rightarrow>
                          (Inr (parse_failure response_text),
                           response_text # tried2 @ tried3))))"

section \<open>Effects\<close>

text \<open>
  The adapter and the loop of \<open>main\<close> act on the outside world. The world is the list of the
  external calls made so far and the image objects that exist; an image variable of the
  source holds the address of an object.
\<close>

record 'px image =
  img_size :: "int \<times> int"
  img_pixel :: "int \<times> int \<Rightarrow> 'px"

datatype event =
    Configure ustring
  | EncodePNG "int \<times> int"
  | InitModel ustring
  | GenerateContent ustring ustring "nat list"
  | Loads ustring

record 'px world =
  calls :: "event list"
  objects :: "'px image list"

type_synonym ('a, 'px) io = "'px world \<Rightarrow> (exn + 'a) \<times> 'px world"

definition io_return :: "'a \<Rightarrow> ('a, 'px) io" where
  "io_return a = (\<lambda>w. (Inr a, w))"

definition io_raise :: "exn \<Rightarrow> ('a, 'px) io" where
  "io_raise e = (\<lambda>w. (Inl e, w))"

definition io_of :: "exn + 'a \<Rightarrow> ('a, 'px) io" where
  "io_of outcome = (\<lambda>w. (outcome, w))"

definition io_bind :: "('a, 'px) io \<Rightarrow> ('a \<Rightarrow> ('b, 'px) io) \<Rightarrow> ('b, 'px) io" where
  "io_bind m f = (\<lambda>w. case m w of (Inl e, w') \<Rightarrow> (Inl e, w') | (Inr a, w') \<Rightarrow> f a w')"

text \<open>\<open>try: m  except Exception as e: h e\<close>\<close>

definition io_catch :: "('a, 'px) io \<Rightarrow> (exn \<Rightarrow> ('a, 'px) io) \<Rightarrow> ('a, 'px) io" where
  "io_catch m h = (\<lambda>w. case m w of (Inl e, w') \<Rightarrow> h e w' | (Inr a, w') \<Rightarrow> (Inr a, w'))"

text \<open>An external call: it is recorded, and returns or raises as the outside decides.\<close>

definition io_call :: "event \<Rightarrow> exn + 'a \<Rightarrow> ('a, 'px) io" where
  "io_call ev outcome = (\<lambda>w. (outcome, w\<lparr>calls := calls w @ [ev]\<rparr>))"

definition io_new :: "'px image \<Rightarrow> (nat, 'px) io" where
  "io_new im = (\<lambda>w. (Inr (length (objects w)), w\<lparr>objects := objects w @ [im]\<rparr>))"

text \<open>
  Reading the object at an address. A variable of the source always holds the address of an
  object that exists, so an address is below the number of objects.
\<close>

definition io_get :: "nat \<Rightarrow> ('px image, 'px) io" where
  "io_get a = (\<lambda>w. (Inr (objects w ! a), w))"

text \<open>
  What the libraries answer: \<open>genai.configure\<close>, \<open>image.save\<close> to PNG bytes,
  \<open>genai.GenerativeModel\<close>, \<open>model.generate_content\<close> (by model name, prompt and image
  bytes; the response it returns is given by what reading its \<open>text\<close> yields),
  \<open>json.loads\<close>, and \<open>repr\<close> of a string.
\<close>

record ('px, 'f) env =
  genai_configure :: "ustring \<Rightarrow> exn + unit"
  image_save :: "'px image \<Rightarrow> exn + nat list"
  genai_GenerativeModel :: "ustring \<Rightarrow> exn + unit"
  generate_content :: "ustring \<Rightarrow> ustring \<Rightarrow> nat list \<Rightarrow> exn + (exn + ustring)"
  json_loads :: "ustring \<Rightarrow> exn + 'f json"
  py_repr :: "ustring \<Rightarrow> ustring"


section \<open>The image cropper\<close>

definition BBOX_COORDINATES :: "(ustring \<times> int list) list" where
  "BBOX_COORDINATES =
     [(ascii ''A'', [47, 156, 880, 499]),
      (ascii ''B'', [47, 504, 880, 902]),
      (ascii ''C'', [47, 906, 881, 1083]),
      (ascii ''D'', [45, 1083, 320, 1200])]"

text \<open>
  Modelled from the spec: \<open>Image.crop\<close> is a method of the imaging library and not under
  src. It returns the pixel sub-region as a new image whose origin is the top-left corner of
  the rectangle, and has no effect on the source. The library rejects a rectangle whose right
  edge is left of its left edge, or whose lower edge is above its upper edge; what the new
  image holds where the rectangle leaves the source is whatever \<open>img_pixel\<close> of the source
  gives there.
\<close>

definition image_crop :: "nat \<Rightarrow> int \<times> int \<times> int \<times> int \<Rightarrow> (nat, 'px) io" where
  "image_crop img box =
     (case box of (x1, y1, x2, y2) \<Rightarrow>
        if x2 < x1 then
          io_raise (ValueError (ascii ''Coordinate '' @ [39] @ ascii ''right'' @ [39] @
                                ascii '' is less than '' @ [39] @ ascii ''left'' @ [39]))
        else if y2 < y1 then
          io_raise (ValueError (ascii ''Coordinate '' @ [39] @ ascii ''lower'' @ [39] @
                                ascii '' is less than '' @ [39] @ ascii ''upper'' @ [39]))
        else
          io_bind (io_get img) (\<lambda>src.
            io_new \<lparr>img_size = (x2 - x1, y2 - y1),
                    img_pixel = (\<lambda>(i, j). img_pixel src (x1 + i, y1 + j))\<rparr>))"

text \<open>\<open>x1, y1, x2, y2 = bbox\<close> needs exactly four values.\<close>

fun unpack4 :: "int list \<Rightarrow> exn + int \<times> int \<times> int \<times> int" where
  "unpack4 [x1, y1, x2, y2] = Inr (x1, y1, x2, y2)"
| "unpack4 bbox =
     (if length bbox < 4
      then Inl (ValueError (ascii ''not enough values to unpack (expected 4, got '' @
                            [48 + length bbox] @ ascii '')''))
      else Inl (ValueError (ascii ''too many values to unpack (expected 4)'')))"

definition crop_image_by_bbox :: "nat \<Rightarrow> int list \<Rightarrow> (nat, 'px) io" where
  "crop_image_by_bbox img bbox =
     io_bind (io_of (unpack4 bbox)) (\<lambda>(x1, y1, x2, y2). image_crop img (x1, y1, x2, y2))"


section \<open>The prompts\<close>

definition prompt_A :: ustring where
  \<open>prompt_A = concat
    [ascii ''\<newline>'',
     ascii ''            '' @ [0x3053, 0x306E, 0x753B, 0x50CF, 0x306F, 0x30A2, 0x30F3, 0x30B1,
       0x30FC, 0x30C8, 0x306E, 0x300C, 0x3042, 0x306A, 0x305F, 0x306E, 0x4ED5, 0x4E8B, 0x306B,
       0x3064, 0x3044, 0x3066, 0x300D, 0x306E, 0x30BB, 0x30AF, 0x30B7, 0x30E7, 0x30F3, 0x3067,
       0x3059, 0x3002] @ ascii ''\<newline>'',
     ascii ''            '' @ [0x5404, 0x8CEA, 0x554F, 0x9805, 0x76EE, 0x306B, 0x3064, 0x3044,
       0x3066, 0x3001, 0x3069, 0x306E, 0x9078, 0x629E, 0x80A2, 0xFF08, 0x305D, 0x3046, 0x3060,
       0x3001, 0x307E, 0x3042, 0x305D, 0x3046, 0x3060, 0x3001, 0x3084, 0x3084, 0x3061, 0x304C,
       0x3046, 0x3001, 0x3061, 0x304C, 0x3046, 0xFF09, 0x306B, 0x30C1, 0x30A7, 0x30C3, 0x30AF,
       0x304C, 0x5165, 0x3063, 0x3066, 0x3044, 0x308B, 0x304B, 0x3092, 0x8AAD, 0x307F, 0x53D6,
       0x3063, 0x3066, 0x304F, 0x3060, 0x3055, 0x3044, 0x3002] @ ascii ''\<newline>'',
     ascii ''\<newline>'',
     ascii ''            '' @ [0x91CD, 0x8981] @ ascii '': '' @ [0x5FC5, 0x305A, 0x4EE5,
       0x4E0B, 0x306E] @ ascii ''JSON'' @ [0x5F62, 0x5F0F, 0x3067, 0x56DE, 0x7B54, 0x3057,
       0x3066, 0x304F, 0x3060, 0x3055, 0x3044, 0x3002, 0x4ED6, 0x306E, 0x8AAC, 0x660E, 0x306F,
       0x4E0D, 0x8981, 0x3067, 0x3059, 0x3002] @ ascii ''\<newline>'',
     ascii ''\<newline>'',
     ascii ''            {\<newline>'',
     ascii ''                "section": "A",\<newline>'',
     ascii ''                "title": "'' @ [0x3042, 0x306A, 0x305F, 0x306E, 0x4ED5, 0x4E8B,
       0x306B, 0x3064, 0x3044, 0x3066] @ ascii ''",\<newline>'',
     ascii ''                "questions": [\<newline>'',
     ascii ''                    {\<newline>'',
     ascii ''                        "number": 1,\<newline>'',
     ascii ''                        "question": "'' @ [0x975E, 0x5E38, 0x306B, 0x305F, 0x304F,
       0x3055, 0x3093, 0x306E, 0x4ED5, 0x4E8B, 0x3092, 0x3057, 0x306A, 0x3051, 0x308C, 0x3070,
       0x306A, 0x3089, 0x306A, 0x3044] @ ascii ''",\<newline>'',
     ascii ''                        "answer": "'' @ [0x305D, 0x3046, 0x3060] @ ascii
       ''"\<newline>'',
     ascii ''                    }\<newline>'',
     ascii ''                ]\<newline>'',
     ascii ''            }\<newline>'',
     ascii ''            '']\<close>

definition prompt_B :: ustring where
  \<open>prompt_B = concat
    [ascii ''\<newline>'',
     ascii ''            '' @ [0x3053, 0x306E, 0x753B, 0x50CF, 0x306F, 0x30A2, 0x30F3, 0x30B1,
       0x30FC, 0x30C8, 0x306E, 0x300C, 0x6700, 0x8FD1] @ ascii ''1'' @ [0x304B, 0x6708, 0x9593,
       0x306E, 0x3042, 0x306A, 0x305F, 0x306E, 0x72B6, 0x614B, 0x306B, 0x3064, 0x3044, 0x3066,
       0x300D, 0x306E, 0x30BB, 0x30AF, 0x30B7, 0x30E7, 0x30F3, 0x3067, 0x3059, 0x3002] @ ascii
       ''\<newline>'',
     ascii ''            '' @ [0x5404, 0x8CEA, 0x554F, 0x9805, 0x76EE, 0x306B, 0x3064, 0x3044,
       0x3066, 0x3001, 0x3069, 0x306E, 0x9078, 0x629E, 0x80A2, 0xFF08, 0x307B, 0x3068, 0x3093,
       0x3069, 0x3044, 0x3064, 0x3082, 0x3042, 0x3063, 0x305F, 0x3001, 0x3057, 0x3070, 0x3057,
       0x3070, 0x3042, 0x3063, 0x305F, 0x3001, 0x3068, 0x304D, 0x3069, 0x304D, 0x3042, 0x3063,
       0x305F, 0x3001, 0x307B, 0x3068, 0x3093, 0x3069, 0x306A, 0x304B, 0x3063, 0x305F, 0xFF09,
       0x306B, 0x30C1, 0x30A7, 0x30C3, 0x30AF, 0x304C, 0x5165, 0x3063, 0x3066, 0x3044, 0x308B,
       0x304B, 0x3092, 0x8AAD, 0x307F, 0x53D6, 0x3063, 0x3066, 0x304F, 0x3060, 0x3055, 0x3044,
       0x3002] @ ascii ''\<newline>'',
     ascii ''\<newline>'',
     ascii ''            '' @ [0x91CD, 0x8981] @ ascii '': '' @ [0x5FC5, 0x305A, 0x4EE5,
       0x4E0B, 0x306E] @ ascii ''JSON'' @ [0x5F62, 0x5F0F, 0x3067, 0x56DE, 0x7B54, 0x3057,
       0x3066, 0x304F, 0x3060, 0x3055, 0x3044, 0x3002, 0x4ED6, 0x306E, 0x8AAC, 0x660E, 0x306F,
       0x4E0D, 0x8981, 0x3067, 0x3059, 0x3002] @ ascii ''\<newline>'',
     ascii ''\<newline>'',
     ascii ''            {\<newline>'',
     ascii ''                "section": "B",\<newline>'',
     ascii ''                "title": "'' @ [0x6700, 0x8FD1] @ ascii ''1'' @ [0x304B, 0x6708,
       0x9593, 0x306E, 0x3042, 0x306A, 0x305F, 0x306E, 0x72B6, 0x614B, 0x306B, 0x3064, 0x3044,
       0x3066] @ ascii ''",\<newline>'',
     ascii ''                "questions": [\<newline>'',
     ascii ''                    {\<newline>'',
     ascii ''                        "number": 1,\<newline>'',
     ascii ''                        "question": "'' @ [0x6D3B, 0x6C17, 0x304C, 0x308F, 0x3044,
       0x3066, 0x304F, 0x308B] @ ascii ''",\<newline>'',
     ascii ''                        "answer": "'' @ [0x307B, 0x3068, 0x3093, 0x3069, 0x306A,
       0x304B, 0x3063, 0x305F] @ ascii ''"\<newline>'',
     ascii ''                    }\<newline>'',
     ascii ''                ]\<newline>'',
     ascii ''            }\<newline>'',
     ascii ''            '']\<close>

definition prompt_C :: ustring where
  \<open>prompt_C = concat
    [ascii ''\<newline>'',
     ascii ''            '' @ [0x3053, 0x306E, 0x753B, 0x50CF, 0x306F, 0x30A2, 0x30F3, 0x30B1,
       0x30FC, 0x30C8, 0x306E, 0x300C, 0x3042, 0x306A, 0x305F, 0x306E, 0x5468, 0x308A, 0x306E,
       0x65B9, 0x3005, 0x306B, 0x3064, 0x3044, 0x3066, 0x300D, 0x306E, 0x30BB, 0x30AF, 0x30B7,
       0x30E7, 0x30F3, 0x3067, 0x3059, 0x3002] @ ascii ''\<newline>'',
     ascii ''            '' @ [0x5404, 0x8CEA, 0x554F, 0x9805, 0x76EE, 0x306B, 0x3064, 0x3044,
       0x3066, 0x3001, 0x3069, 0x306E, 0x9078, 0x629E, 0x80A2, 0xFF08, 0x975E, 0x5E38, 0x306B,
       0x3001, 0x304B, 0x306A, 0x308A, 0x3001, 0x591A, 0x5C11, 0x3001, 0x306A, 0x3044, 0x3001,
       0x5168, 0x304F, 0x306A, 0x3044, 0xFF09, 0x306B, 0x30C1, 0x30A7, 0x30C3, 0x30AF, 0x304C,
       0x5165, 0x3063, 0x3066, 0x3044, 0x308B, 0x304B, 0x3092, 0x8AAD, 0x307F, 0x53D6, 0x3063,
       0x3066, 0x304F, 0x3060, 0x3055, 0x3044, 0x3002] @ ascii ''\<newline>'',
     ascii ''\<newline>'',
     ascii ''            '' @ [0x91CD, 0x8981] @ ascii '': '' @ [0x5FC5, 0x305A, 0x4EE5,
       0x4E0B, 0x306E] @ ascii ''JSON'' @ [0x5F62, 0x5F0F, 0x3067, 0x56DE, 0x7B54, 0x3057,
       0x3066, 0x304F, 0x3060, 0x3055, 0x3044, 0x3002, 0x4ED6, 0x306E, 0x8AAC, 0x660E, 0x306F,
       0x4E0D, 0x8981, 0x3067, 0x3059, 0x3002] @ ascii ''\<newline>'',
     ascii ''\<newline>'',
     ascii ''            {\<newline>'',
     ascii ''                "section": "C",\<newline>'',
     ascii ''                "title": "'' @ [0x3042, 0x306A, 0x305F, 0x306E, 0x5468, 0x308A,
       0x306E, 0x65B9, 0x3005, 0x306B, 0x3064, 0x3044, 0x3066] @ ascii ''",\<newline>'',
     ascii ''                "questions": [\<newline>'',
     ascii ''                    {\<newline>'',
     ascii ''                        "number": 1,\<newline>'',
     ascii ''                        "question": "'' @ [0x4E0A, 0x53F8] @ ascii
       ''",\<newline>'',
     ascii ''                        "answer": "'' @ [0x975E, 0x5E38, 0x306B] @ ascii
       ''"\<newline>'',
     ascii ''                    }\<newline>'',
     ascii ''                ]\<newline>'',
     ascii ''            }\<newline>'',
     ascii ''            '']\<close>

definition prompt_D :: ustring where
  \<open>prompt_D = concat
    [ascii ''\<newline>'',
     ascii ''            '' @ [0x3053, 0x306E, 0x753B, 0x50CF, 0x306F, 0x30A2, 0x30F3, 0x30B1,
       0x30FC, 0x30C8, 0x306E, 0x300C, 0x6E80, 0x8DB3, 0x5EA6, 0x306B, 0x3064, 0x3044, 0x3066,
       0x300D, 0x306E, 0x30BB, 0x30AF, 0x30B7, 0x30E7, 0x30F3, 0x3067, 0x3059, 0x3002] @ ascii
       ''\<newline>'',
     ascii ''            '' @ [0x5404, 0x8CEA, 0x554F, 0x9805, 0x76EE, 0x306B, 0x3064, 0x3044,
       0x3066, 0x3001, 0x3069, 0x306E, 0x9078, 0x629E, 0x80A2, 0xFF08, 0x6E80, 0x8DB3, 0x3001,
       0x307E, 0x3042, 0x6E80, 0x8DB3, 0x3001, 0x3084, 0x3084, 0x4E0D, 0x6E80, 0x8DB3, 0x3001,
       0x4E0D, 0x6E80, 0x8DB3, 0xFF09, 0x306B, 0x30C1, 0x30A7, 0x30C3, 0x30AF, 0x304C, 0x5165,
       0x3063, 0x3066, 0x3044, 0x308B, 0x304B, 0x3092, 0x8AAD, 0x307F, 0x53D6, 0x3063, 0x3066,
       0x304F, 0x3060, 0x3055, 0x3044, 0x3002] @ ascii ''\<newline>'',
     ascii ''\<newline>'',
     ascii ''            '' @ [0x91CD, 0x8981] @ ascii '': '' @ [0x5FC5, 0x305A, 0x4EE5,
       0x4E0B, 0x306E] @ ascii ''JSON'' @ [0x5F62, 0x5F0F, 0x3067, 0x56DE, 0x7B54, 0x3057,
       0x3066, 0x304F, 0x3060, 0x3055, 0x3044, 0x3002, 0x4ED6, 0x306E, 0x8AAC, 0x660E, 0x306F,
       0x4E0D, 0x8981, 0x3067, 0x3059, 0x3002] @ ascii ''\<newline>'',
     ascii ''\<newline>'',
     ascii ''            {\<newline>'',
     ascii ''                "section": "D",\<newline>'',
     ascii ''                "title": "'' @ [0x6E80, 0x8DB3, 0x5EA6, 0x306B, 0x3064, 0x3044,
       0x3066] @ ascii ''",\<newline>'',
     ascii ''                "questions": [\<newline>'',
     ascii ''                    {\<newline>'',
     ascii ''                        "number": 1,\<newline>'',
     ascii ''                        "question": "'' @ [0x4ED5, 0x4E8B, 0x306B, 0x6E80, 0x8DB3,
       0x3060] @ ascii ''",\<newline>'',
     ascii ''                        "answer": "'' @ [0x6E80, 0x8DB3] @ ascii ''"\<newline>'',
     ascii ''                    }\<newline>'',
     ascii ''                ]\<newline>'',
     ascii ''            }\<newline>'',
     ascii ''            '']\<close>

definition prompts :: "(ustring \<times> ustring) list" where
  "prompts =
     [(ascii ''A'', prompt_A), (ascii ''B'', prompt_B),
      (ascii ''C'', prompt_C), (ascii ''D'', prompt_D)]"

text \<open>\<open>prompts[section_name]\<close>\<close>

definition prompt_for :: "ustring \<Rightarrow> ustring option" where
  "prompt_for section_name = map_of prompts section_name"


section \<open>The model client adapter\<close>

definition missing_key_message :: ustring where
  "missing_key_message =
     ascii ''Gemini API'' @
     [0x30AD, 0x30FC, 0x304C, 0x8A2D, 0x5B9A, 0x3055, 0x308C, 0x3066, 0x3044, 0x307E, 0x305B,
      0x3093]"

definition api_error_prefix :: ustring where
  "api_error_prefix = ascii ''Gemini API '' @ [0x30A8, 0x30E9, 0x30FC] @ ascii '': ''"

definition error_object :: "ustring \<Rightarrow> 'f json" where
  "error_object message = JObj [(ascii ''error'', JStr message)]"

text \<open>The body of the \<open>try\<close> statement, with a non-empty key.\<close>

definition call_path ::
  "('px, 'f) env \<Rightarrow> nat \<Rightarrow> ustring \<Rightarrow> ustring \<Rightarrow> ustring \<Rightarrow> ('f json, 'px) io" where
  "call_path env img section_name api_key model_name =
     io_bind (io_call (Configure api_key) (genai_configure env api_key)) (\<lambda>_.
     io_bind (io_get img) (\<lambda>im.
     io_bind (io_call (EncodePNG (img_size im)) (image_save env im)) (\<lambda>data.
     io_bind (io_call (InitModel model_name) (genai_GenerativeModel env model_name)) (\<lambda>_.
     io_bind (case prompt_for section_name of
                Some p \<Rightarrow> io_return p
              | None \<Rightarrow> io_raise (KeyError (py_repr env section_name))) (\<lambda>prompt.
     io_bind (io_call (GenerateContent model_name prompt data)
                (generate_content env model_name prompt data)) (\<lambda>response.
     io_bind (io_of response) (\<lambda>response_text.
       (\<lambda>w. case extract_json_from_response (json_loads env) response_text of
               (result, tried) \<Rightarrow> (result, w\<lparr>calls := calls w @ map Loads tried\<rparr>)))))))))"

text \<open>\<open>not api_key\<close> holds of \<open>None\<close> and of the empty string.\<close>

definition analyze_section_with_gemini ::
  "('px, 'f) env \<Rightarrow> nat \<Rightarrow> ustring \<Rightarrow> ustring option \<Rightarrow> ustring \<Rightarrow> ('f json, 'px) io" where
  "analyze_section_with_gemini env img section_name api_key model_name =
     (case api_key of
        None \<Rightarrow> io_return (error_object missing_key_message)
      | Some k \<Rightarrow>
          if k = [] then io_return (error_object missing_key_message)
          else io_catch (call_path env img section_name k model_name)
                 (\<lambda>e. io_return (error_object (api_error_prefix @ str_of e))))"


section \<open>The loop of main\<close>

text \<open>The name Python gives the type of a value in its messages.\<close>

fun type_name :: "'f json \<Rightarrow> ustring" where
  "type_name JNull = ascii ''NoneType''"
| "type_name (JBool b) = ascii ''bool''"
| "type_name (JInt i) = ascii ''int''"
| "type_name (JFloat x) = ascii ''float''"
| "type_name (JStr s) = ascii ''str''"
| "type_name (JArr xs) = ascii ''list''"
| "type_name (JObj kvs) = ascii ''dict''"

text \<open>
  \<open>key in value\<close> for a string \<open>key\<close>: a key of a dictionary, an element of a list, a
  substring of a string; the other values are no containers.
\<close>

fun py_in :: "ustring \<Rightarrow> 'f json \<Rightarrow> exn + bool" where
  "py_in key (JObj kvs) = Inr (key \<in> set (map fst kvs))"
| "py_in key (JArr xs) = Inr (JStr key \<in> set xs)"
| "py_in key (JStr s) = Inr (find_sub key s \<noteq> None)"
| "py_in key v =
     Inl (TypeError (ascii ''argument of type '' @ [39] @ type_name v @ [39] @
                     ascii '' is not iterable''))"

text \<open>\<open>value[key]\<close> for a string \<open>key\<close>.\<close>

fun py_getitem :: "(ustring \<Rightarrow> ustring) \<Rightarrow> 'f json \<Rightarrow> ustring \<Rightarrow> exn + 'f json" where
  "py_getitem rp (JObj kvs) key =
     (case map_of kvs key of Some v \<Rightarrow> Inr v | None \<Rightarrow> Inl (KeyError (rp key)))"
| "py_getitem rp (JArr xs) key =
     Inl (TypeError (ascii ''list indices must be integers or slices, not str''))"
| "py_getitem rp (JStr s) key =
     Inl (TypeError (ascii ''string indices must be integers, not '' @ [39] @ ascii ''str'' @
                     [39]))"
| "py_getitem rp v key =
     Inl (TypeError ([39] @ type_name v @ [39] @ ascii '' object is not subscriptable''))"

definition sum_bind :: "exn + 'a \<Rightarrow> ('a \<Rightarrow> exn + 'b) \<Rightarrow> exn + 'b" where
  "sum_bind m f = (case m of Inl e \<Rightarrow> Inl e | Inr a \<Rightarrow> f a)"

text \<open>
  What the loop does with a result after storing it: the tests and subscripts of
  \<^verbatim>\<open>if "error" in result: ... result['error'] ... if "raw_response" in result: ...\<close>.
  The widgets that show the values are not modelled.
\<close>

definition show_result :: "(ustring \<Rightarrow> ustring) \<Rightarrow> 'f json \<Rightarrow> exn + unit" where
  "show_result rp result =
     sum_bind (py_in (ascii ''error'') result) (\<lambda>is_error.
       if is_error then
         sum_bind (py_getitem rp result (ascii ''error'')) (\<lambda>_.
         sum_bind (py_in (ascii ''raw_response'') result) (\<lambda>has_raw.
           if has_raw then
             sum_bind (py_getitem rp result (ascii ''raw_response'')) (\<lambda>_. Inr ())
           else Inr ()))
       else Inr ())"

text \<open>
  One turn of the loop, for one item of \<open>BBOX_COORDINATES\<close>: crop, call the adapter, store
  the result under the name of the section, then show it. The calls that only draw on the
  page (\<open>st.write\<close>, \<open>st.columns\<close>, \<open>st.image\<close>) are left out.
\<close>

definition main_loop_body ::
  "('px, 'f) env \<Rightarrow> nat \<Rightarrow> ustring \<Rightarrow> ustring \<Rightarrow> (ustring \<times> 'f json) list \<Rightarrow>
   ustring \<times> int list \<Rightarrow> ((ustring \<times> 'f json) list, 'px) io" where
  "main_loop_body env img api_key model_name results item =
     (case item of (section, bbox) \<Rightarrow>
        io_bind (crop_image_by_bbox img bbox) (\<lambda>cropped_image.
        io_bind (analyze_section_with_gemini env cropped_image section (Some api_key)
                   model_name) (\<lambda>result.
        io_bind (io_return (AList.update section result results)) (\<lambda>results'.
        io_bind (io_of (show_result (py_repr env) result)) (\<lambda>_.
        io_return results')))))"

fun main_loop_items ::
  "('px, 'f) env \<Rightarrow> nat \<Rightarrow> ustring \<Rightarrow> ustring \<Rightarrow> (ustring \<times> 'f json) list \<Rightarrow>
   (ustring \<times> int list) list \<Rightarrow> ((ustring \<times> 'f json) list, 'px) io" where
  "main_loop_items env img api_key model_name results [] = io_return results"
| "main_loop_items env img api_key model_name results (item # items) =
     io_bind (main_loop_body env img api_key model_name results item) (\<lambda>results'.
       main_loop_items env img api_key model_name results' items)"

text \<open>
  \<open>results = {}\<close> and the \<open>for\<close> loop over \<open>BBOX_COORDINATES.items()\<close>. \<open>main\<close> enters
  the loop only with a key that is not empty.
\<close>

definition main_loop ::
  "('px, 'f) env \<Rightarrow> nat \<Rightarrow> ustring \<Rightarrow> ustring \<Rightarrow> ((ustring \<times> 'f json) list, 'px) io" where
  "main_loop env img api_key model_name =
     main_loop_items env img api_key model_name [] BBOX_COORDINATES"


section \<open>The specification's notions\<close>

text \<open>
  The first fenced block tagged as JSON: the text after the first \<^verbatim>\<open>```json\<close> up to the
  next \<^verbatim>\<open>```\<close>, without the white space at its two ends.
\<close>

definition first_fenced_block :: "ustring \<Rightarrow> ustring option" where
  "first_fenced_block s =
     (case find_sub fence_json s of
        None \<Rightarrow> None
      | Some (before, rest) \<Rightarrow>
          (case find_sub fence rest of
             None \<Rightarrow> None
           | Some (inner, after) \<Rightarrow> Some (rstrip (lstrip inner))))"

text \<open>The span from the first opening brace through the last closing brace after it.\<close>

definition brace_span :: "ustring \<Rightarrow> ustring option" where
  "brace_span s =
     (let t = dropWhile (\<lambda>c. c \<noteq> lbrace) s
      in if rbrace \<in> set t then Some (rev (dropWhile (\<lambda>c. c \<noteq> rbrace) (rev t))) else None)"

text \<open>A strategy fails when it finds nothing to parse or the decoder rejects what it found.\<close>

definition fenced_fails :: "(ustring \<Rightarrow> exn + 'f json) \<Rightarrow> ustring \<Rightarrow> bool" where
  "fenced_fails loads s =
     (case first_fenced_block s of None \<Rightarrow> True | Some inner \<Rightarrow> try_loads loads inner = Pass)"

definition brace_fails :: "(ustring \<Rightarrow> exn + 'f json) \<Rightarrow> ustring \<Rightarrow> bool" where
  "brace_fails loads s =
     (case brace_span s of None \<Rightarrow> True | Some span \<Rightarrow> try_loads loads span = Pass)"


fun is_remote_call :: "event \<Rightarrow> bool" where
  "is_remote_call (GenerateContent m p d) = True"
| "is_remote_call ev = False"

text \<open>
  Modelled from the spec: the title and the answer vocabulary of a region belong to the
  Region of the data model; the source has no such table, only the prompts. The terms are
  the ones the spec lists for A and the choices each section of the questionnaire offers.
\<close>

definition regions :: "(ustring \<times> ustring \<times> ustring list) list" where
  "regions =
     [(ascii ''A'',
       [0x3042, 0x306A, 0x305F, 0x306E, 0x4ED5, 0x4E8B, 0x306B, 0x3064, 0x3044, 0x3066],
       [[0x305D, 0x3046, 0x3060],
        [0x307E, 0x3042, 0x305D, 0x3046, 0x3060],
        [0x3084, 0x3084, 0x3061, 0x304C, 0x3046],
        [0x3061, 0x304C, 0x3046]]),
      (ascii ''B'',
       [0x6700, 0x8FD1, 49, 0x304B, 0x6708, 0x9593, 0x306E, 0x3042, 0x306A, 0x305F, 0x306E,
        0x72B6, 0x614B, 0x306B, 0x3064, 0x3044, 0x3066],
       [[0x307B, 0x3068, 0x3093, 0x3069, 0x3044, 0x3064, 0x3082, 0x3042, 0x3063, 0x305F],
        [0x3057, 0x3070, 0x3057, 0x3070, 0x3042, 0x3063, 0x305F],
        [0x3068, 0x304D, 0x3069, 0x304D, 0x3042, 0x3063, 0x305F],
        [0x307B, 0x3068, 0x3093, 0x3069, 0x306A, 0x304B, 0x3063, 0x305F]]),
      (ascii ''C'',
       [0x3042, 0x306A, 0x305F, 0x306E, 0x5468, 0x308A, 0x306E, 0x65B9, 0x3005, 0x306B, 0x3064,
        0x3044, 0x3066],
       [[0x975E, 0x5E38, 0x306B],
        [0x304B, 0x306A, 0x308A],
        [0x591A, 0x5C11],
        [0x306A, 0x3044],
        [0x5168, 0x304F, 0x306A, 0x3044]]),
      (ascii ''D'',
       [0x6E80, 0x8DB3, 0x5EA6, 0x306B, 0x3064, 0x3044, 0x3066],
       [[0x6E80, 0x8DB3],
        [0x307E, 0x3042, 0x6E80, 0x8DB3],
        [0x3084, 0x3084, 0x4E0D, 0x6E80, 0x8DB3],
        [0x4E0D, 0x6E80, 0x8DB3]])]"

text \<open>A prompt names the region when it holds the title and every term of the vocabulary.\<close>

definition names_region :: "ustring \<Rightarrow> ustring \<times> ustring list \<Rightarrow> bool" where
  "names_region prompt r =
     (case r of (title, vocabulary) \<Rightarrow>
        prompt \<noteq> [] \<and> title \<noteq> [] \<and> vocabulary \<noteq> [] \<and>
        sublist title prompt \<and>
        list_all (\<lambda>term. term \<noteq> [] \<and> sublist term prompt) vocabulary)"

text \<open>
  The two shapes the data model of the specification gives an AnalysisResult: a structured
  record with the keys section, title and questions, each question with the keys number,
  question and answer, and an error record with the keys error and raw_response.
\<close>

fun has_keys :: "ustring list \<Rightarrow> 'f json \<Rightarrow> bool" where
  "has_keys ks (JObj kvs) = (distinct (map fst kvs) \<and> set (map fst kvs) = set ks)"
| "has_keys ks v = False"

fun questions_of :: "'f json \<Rightarrow> 'f json list option" where
  "questions_of (JObj kvs) =
     (case map_of kvs (ascii ''questions'') of Some (JArr qs) \<Rightarrow> Some qs | _ \<Rightarrow> None)"
| "questions_of v = None"

definition structured_record :: "'f json \<Rightarrow> bool" where
  "structured_record v =
     (has_keys [ascii ''section'', ascii ''title'', ascii ''questions''] v \<and>
      (case questions_of v of
         Some qs \<Rightarrow> list_all (has_keys [ascii ''number'', ascii ''question'', ascii ''answer'']) qs
       | None \<Rightarrow> False))"

definition error_record :: "'f json \<Rightarrow> bool" where
  "error_record v = has_keys [ascii ''error'', ascii ''raw_response''] v"


section \<open>Concrete inputs\<close>

text \<open>
  A decoder that accepts the documents of a table and rejects every other text. With the
  table below it answers as \<open>json.loads\<close> does on every text the examples hand to it.
\<close>

definition decoder_of :: "(ustring \<times> 'f json) list \<Rightarrow> ustring \<Rightarrow> exn + 'f json" where
  "decoder_of tbl s =
     (case map_of tbl s of Some v \<Rightarrow> Inr v | None \<Rightarrow> Inl (JSONDecodeError (ascii ''Expecting value'')))"

definition ex_object :: "unit json" where
  "ex_object = JObj [(ascii ''a'', JInt 1)]"

definition ex_direct :: ustring where
  \<open>ex_direct = ascii ''{"a":1}''\<close>


definition ex_braces :: ustring where
  \<open>ex_braces = ascii ''blah {"a":1} blah''\<close>

definition ex_two_objects :: ustring where
  \<open>ex_two_objects = ascii ''x {"a":1} y {"b":2} z''\<close>

definition ex_plain :: ustring where
  "ex_plain = ascii ''no json here''"


definition ex_loads :: "ustring \<Rightarrow> exn + unit json" where
  "ex_loads = decoder_of [(ex_direct, ex_object), (ascii ''null'', JNull)]"

text \<open>
  Texts that hold an integer of 4301 digits: the digits alone, the digits before a fenced
  block, and the digits as a member of an object after a word. \<open>json.loads\<close> (Python 3.11
  and later) refuses to convert an integer of more than 4300 digits and raises
  \<open>ValueError\<close>, which is no \<open>JSONDecodeError\<close>.
\<close>

definition ex_digits :: ustring where
  "ex_digits = replicate 4301 49"






definition ex_image :: "nat image" where
  "ex_image = \<lparr>img_size = (1000, 1300), img_pixel = (\<lambda>(i, j). nat (i + j))\<rparr>"

definition ex_world :: "nat world" where
  "ex_world = \<lparr>calls = [], objects = [ex_image]\<rparr>"

text \<open>Libraries that succeed, with a remote model that answers a prompt as \<open>respond\<close> says.\<close>

definition mock_env :: "(ustring \<Rightarrow> exn + (exn + ustring)) \<Rightarrow> (nat, unit) env" where
  "mock_env respond =
     \<lparr>genai_configure = (\<lambda>k. Inr ()),
      image_save = (\<lambda>im. Inr [137, 80, 78, 71]),
      genai_GenerativeModel = (\<lambda>m. Inr ()),
      generate_content = (\<lambda>m p d. respond p),
      json_loads = ex_loads,
      py_repr = (\<lambda>s. [39] @ s @ [39])\<rparr>"

definition ex_key :: ustring where
  "ex_key = ascii ''secret''"

definition ex_model :: ustring where
  "ex_model = ascii ''gemini-2.5-pro''"

text \<open>The values that are dictionaries.\<close>

fun is_dict :: "'f json \<Rightarrow> bool" where
  "is_dict (JObj kvs) = True"
| "is_dict v = False"

text \<open>A remote model that answers the prompt of region A with the text \<open>null\<close>.\<close>

definition null_for_A :: "ustring \<Rightarrow> exn + (exn + ustring)" where
  "null_for_A p = (if p = prompt_A then Inr (Inr (ascii ''null'')) else Inr (Inr ex_direct))"


section \<open>Lemmas on texts and on the two patterns\<close>

lemma dropWhile_neq_notin:
  "c \<notin> set xs \<Longrightarrow> dropWhile (\<lambda>x. x \<noteq> c) (xs @ ys) = dropWhile (\<lambda>x. x \<noteq> c) ys"
  by (induction xs) auto

lemma dropWhile_neq_in:
  "c \<in> set xs \<Longrightarrow> dropWhile (\<lambda>x. x \<noteq> c) (xs @ ys) = dropWhile (\<lambda>x. x \<noteq> c) xs @ ys"
  by (induction xs) auto

lemma rmatch_greedy_any_lit:
  "rmatch [Greedy Any, One (Lit c)] s =
     (if c \<in> set s then Some (rev (dropWhile (\<lambda>x. x \<noteq> c) (rev s)), []) else None)"
proof (induction s)
  case Nil
  show ?case by simp
next
  case (Cons x xs)
  show ?case
  proof (cases "c \<in> set xs")
    case True
    then show ?thesis using Cons by (simp add: dropWhile_neq_in)
  next
    case False
    have "x = c \<Longrightarrow> dropWhile (\<lambda>y. y \<noteq> c) (rev xs @ [x]) = [x]"
      using False by (simp add: dropWhile_neq_notin)
    then show ?thesis using Cons False by auto
  qed
qed

lemma rmatch_brace_pattern:
  "rmatch brace_pattern s =
     (case s of [] \<Rightarrow> None
      | x # xs \<Rightarrow>
          if x = lbrace \<and> rbrace \<in> set xs
          then Some (x # rev (dropWhile (\<lambda>c. c \<noteq> rbrace) (rev xs)), [])
          else None)"
  by (cases s) (simp_all add: brace_pattern_def rmatch_greedy_any_lit)

lemma re_search_brace: "re_search brace_pattern s = map_option (\<lambda>g. (g, [])) (brace_span s)"
proof (induction s)
  case Nil
  show ?case by (simp add: rmatch_brace_pattern brace_span_def)
next
  case (Cons x xs)
  have sub: "rbrace \<notin> set xs \<Longrightarrow> rbrace \<notin> set (dropWhile (\<lambda>c. c \<noteq> lbrace) xs)"
    using set_dropWhileD by fastforce
  have ne: "lbrace \<noteq> rbrace" by (simp add: lbrace_def rbrace_def)
  show ?case
  proof (cases "x = lbrace")
    case True
    note xl = this
    show ?thesis
    proof (cases "rbrace \<in> set xs")
      case True
      then show ?thesis using xl ne
        by (simp add: rmatch_brace_pattern brace_span_def dropWhile_neq_in)
    next
      case False
      then show ?thesis using xl ne Cons sub
        by (simp add: rmatch_brace_pattern brace_span_def)
    qed
  next
    case False
    then show ?thesis using Cons
      by (simp add: rmatch_brace_pattern brace_span_def)
  qed
qed

lemma brace_span_decomp:
  assumes "lbrace \<notin> set pre" "rbrace \<notin> set post"
  shows "brace_span (pre @ lbrace # mid @ rbrace # post) = Some (lbrace # mid @ [rbrace])"
proof -
  have 1: "dropWhile (\<lambda>c. c \<noteq> lbrace) (pre @ lbrace # mid @ rbrace # post) = lbrace # mid @ rbrace # post"
    using assms(1) by (simp add: dropWhile_neq_notin)
  have "dropWhile (\<lambda>c. c \<noteq> rbrace) (rev post @ rbrace # rev mid @ [lbrace]) = rbrace # rev mid @ [lbrace]"
    using assms(2) by (simp add: dropWhile_neq_notin)
  then have 2: "dropWhile (\<lambda>c. c \<noteq> rbrace) (rev (lbrace # mid @ rbrace # post)) = rbrace # rev mid @ [lbrace]"
    by simp
  show ?thesis unfolding brace_span_def Let_def 1 2 by simp
qed

lemma brace_span_SomeD:
  assumes "brace_span s = Some g"
  shows "\<exists>pre mid post. s = pre @ lbrace # mid @ rbrace # post \<and> lbrace \<notin> set pre
           \<and> rbrace \<notin> set post \<and> g = lbrace # mid @ [rbrace]"
proof -
  define t where "t = dropWhile (\<lambda>c. c \<noteq> lbrace) s"
  define pre where "pre = takeWhile (\<lambda>c. c \<noteq> lbrace) s"
  have tx: "s = pre @ t" by (simp add: t_def pre_def)
  have pre: "lbrace \<notin> set pre" unfolding pre_def by (auto dest: set_takeWhileD)
  from assms have rin: "rbrace \<in> set t" and g: "g = rev (dropWhile (\<lambda>c. c \<noteq> rbrace) (rev t))"
    by (auto simp: brace_span_def t_def Let_def split: if_splits)
  have ne: "lbrace \<noteq> rbrace" by (simp add: lbrace_def rbrace_def)
  from rin have tne: "t \<noteq> []" by auto
  then have "hd t = lbrace" unfolding t_def using hd_dropWhile[of "\<lambda>c. c \<noteq> lbrace" s] by simp
  with tne obtain t' where t': "t = lbrace # t'" by (cases t) auto
  with rin ne have rin': "rbrace \<in> set t'" by auto
  define post where "post = rev (takeWhile (\<lambda>c. c \<noteq> rbrace) (rev t'))"
  define d where "d = dropWhile (\<lambda>c. c \<noteq> rbrace) (rev t')"
  have post: "rbrace \<notin> set post" unfolding post_def by (auto dest: set_takeWhileD)
  have "rev t' = rev post @ d" unfolding post_def d_def by simp
  then have t'd: "t' = rev d @ post" by (metis rev_append rev_rev_ident)
  have dne: "d \<noteq> []" unfolding d_def using rin' by (simp add: dropWhile_eq_Nil_conv)
  then have "hd d = rbrace" unfolding d_def using hd_dropWhile[of "\<lambda>c. c \<noteq> rbrace" "rev t'"] by simp
  with dne obtain d' where d': "d = rbrace # d'" by (cases d) auto
  have "rev t = rev t' @ [lbrace]" using t' by simp
  then have "dropWhile (\<lambda>c. c \<noteq> rbrace) (rev t) = d @ [lbrace]"
    using rin' by (simp add: dropWhile_neq_in d_def)
  then have "g = lbrace # rev d' @ [rbrace]" using g d' by simp
  moreover have "s = pre @ lbrace # rev d' @ rbrace # post" using tx t' t'd d' by simp
  ultimately show ?thesis using pre post by blast
qed

lemma find_sub_SomeD: "find_sub pat s = Some (b, a) \<Longrightarrow> s = b @ pat @ a"
proof (induction s arbitrary: b)
  case Nil
  then show ?case by (simp split: if_splits)
next
  case (Cons x xs)
  show ?case
  proof (cases "prefix pat (x # xs)")
    case True
    then obtain r where r: "x # xs = pat @ r" by (auto simp: prefix_def)
    from True Cons.prems have "b = []" "a = drop (length pat) (x # xs)" by auto
    with r show ?thesis by simp
  next
    case False
    with Cons.prems obtain b' where "find_sub pat xs = Some (b', a)" "b = x # b'"
      by (auto split: if_splits)
    with Cons.IH show ?thesis by simp
  qed
qed

lemma find_sub_None: "find_sub pat s = None \<longleftrightarrow> \<not> sublist pat s"
  by (induction s) (auto simp: sublist_Cons_right)

text \<open>The occurrence \<open>find_sub\<close> finds is the leftmost one.\<close>

lemma find_sub_leftmost:
  assumes "find_sub pat s = Some (b, a)" "s = b' @ pat @ a'"
  shows "length b \<le> length b'"
  using assms
proof (induction s arbitrary: b b')
  case Nil
  then show ?case by (simp split: if_splits)
next
  case (Cons x xs)
  show ?case
  proof (cases "prefix pat (x # xs)")
    case True
    with Cons.prems(1) show ?thesis by simp
  next
    case False
    with Cons.prems(1) obtain b0 where b0: "find_sub pat xs = Some (b0, a)" "b = x # b0"
      by (auto split: if_splits)
    from False Cons.prems(2) have "b' \<noteq> []" by (auto simp: prefix_def)
    with Cons.prems(2) obtain b1 where b1: "b' = x # b1" "xs = b1 @ pat @ a'"
      by (cases b') auto
    from Cons.IH[OF b0(1) b1(2)] b0(2) b1(1) show ?thesis by simp
  qed
qed

lemma rmatch_lits:
  "rmatch (lits l @ ps) s =
     (if prefix l s then map_option (\<lambda>(g0, g1). (l @ g0, g1)) (rmatch ps (drop (length l) s))
      else None)"
proof (induction l arbitrary: s)
  case Nil
  have "(\<lambda>(g0, g1). ([] @ g0, g1)) = (id :: rematch \<Rightarrow> rematch)" by auto
  then show ?case by (simp add: lits_def option.map_id)
next
  case (Cons c l)
  show ?case
  proof (cases s)
    case Nil
    then show ?thesis by (simp add: lits_def)
  next
    case (Cons x xs)
    then show ?thesis using Cons.IH[of xs]
      by (auto simp add: lits_def option.map_comp comp_def split_def)
  qed
qed

lemma rmatch_lits_only:
  "rmatch (lits l) s = (if prefix l s then Some (l, []) else None)"
  using rmatch_lits[of l "[]" s] by simp

lemma fence_simps: "fence = [96, 96, 96]" "fence_json = [96, 96, 96, 106, 115, 111, 110]"
  by (simp_all add: fence_def fence_json_def ascii_def)

lemma not_space_96: "\<not> is_space 96"
  by (simp add: is_space_def)

lemma prefix_fence_space: "is_space x \<Longrightarrow> \<not> prefix fence (x # xs)"
  using not_space_96 by (auto simp: fence_simps)

lemma prefix_fence_dropWhile: "prefix fence s \<Longrightarrow> dropWhile is_space s = s"
  using not_space_96 by (cases s) (auto simp: fence_simps)

lemma rmatch_space_fence:
  "rmatch (Greedy Space # lits fence) s =
     (if prefix fence (dropWhile is_space s) then Some (takeWhile is_space s @ fence, [])
      else None)"
proof (induction s)
  case Nil
  show ?case by (simp add: rmatch_lits_only)
next
  case (Cons x xs)
  show ?case
  proof (cases "is_space x")
    case True
    then show ?thesis using Cons prefix_fence_space[of x xs]
      by (simp add: rmatch_lits_only)
  next
    case False
    then show ?thesis by (simp add: rmatch_lits_only)
  qed
qed

lemma find_sub_fence_space:
  "prefix fence (dropWhile is_space s) \<Longrightarrow>
     find_sub fence s = Some (takeWhile is_space s, drop (length fence) (dropWhile is_space s))"
proof (induction s)
  case Nil
  then show ?case by (simp add: fence_simps)
next
  case (Cons x xs)
  show ?case
  proof (cases "is_space x")
    case True
    then show ?thesis using Cons prefix_fence_space[of x xs] by simp
  next
    case False
    then show ?thesis using Cons.prems by simp
  qed
qed

lemma rstrip_spaces: "\<forall>c\<in>set b. is_space c \<Longrightarrow> rstrip b = []"
  by (simp add: rstrip_def dropWhile_eq_Nil_conv)

lemma rstrip_Cons:
  assumes "\<not> (is_space x \<and> (\<forall>c\<in>set b. is_space c))"
  shows "rstrip (x # b) = x # rstrip b"
proof (cases "\<forall>c\<in>set b. is_space c")
  case True
  with assms have nx: "\<not> is_space x" by simp
  from True have "dropWhile is_space (rev b @ [x]) = dropWhile is_space [x]"
    by (intro dropWhile_append2) simp
  moreover from True have "dropWhile is_space (rev b) = []"
    by (simp add: dropWhile_eq_Nil_conv)
  ultimately show ?thesis using nx by (simp add: rstrip_def)
next
  case False
  then have "dropWhile is_space (rev b @ [x]) = dropWhile is_space (rev b) @ [x]"
    by (auto simp add: dropWhile_append1)
  then show ?thesis by (simp add: rstrip_def)
qed

lemma rmatch_lazy_fence:
  "rmatch (LazyGroup Any # Greedy Space # lits fence) s =
     (case find_sub fence s of
        None \<Rightarrow> None
      | Some (body, after) \<Rightarrow> Some (body @ fence, rstrip body))"
proof -
  define tail where "tail = Greedy Space # lits fence"
  have tail: "rmatch tail s =
      (if prefix fence (dropWhile is_space s) then Some (takeWhile is_space s @ fence, [])
       else None)" for s
    unfolding tail_def by (rule rmatch_space_fence)
  have "rmatch (LazyGroup Any # tail) s =
     (case find_sub fence s of
        None \<Rightarrow> None
      | Some (body, after) \<Rightarrow> Some (body @ fence, rstrip body))"
  proof (induction s)
    case Nil
    have "find_sub fence [] = None" "\<not> prefix fence []" by (simp_all add: fence_simps)
    then show ?case by (simp add: tail)
  next
    case (Cons x xs)
    show ?case
    proof (cases "prefix fence (dropWhile is_space (x # xs))")
      case True
      have "rstrip (takeWhile is_space (x # xs)) = []"
        by (rule rstrip_spaces) (auto dest: set_takeWhileD)
      moreover have "rmatch tail (x # xs) = Some (takeWhile is_space (x # xs) @ fence, [])"
        using True by (simp only: tail if_True)
      ultimately show ?thesis
        using find_sub_fence_space[OF True] by (simp del: find_sub.simps takeWhile.simps)
    next
      case False
      then have np: "\<not> prefix fence (x # xs)" using prefix_fence_dropWhile by force
      have nt: "rmatch tail (x # xs) = None"
        using False by (simp only: tail if_False)
      show ?thesis
      proof (cases "find_sub fence xs")
        case None
        then show ?thesis using nt np Cons by simp
      next
        case (Some p)
        obtain body after where p: "p = (body, after)" by (cases p)
        have xs: "xs = body @ fence @ after" using find_sub_SomeD Some p by blast
        have "\<not> (is_space x \<and> (\<forall>c\<in>set body. is_space c))"
        proof
          assume a: "is_space x \<and> (\<forall>c\<in>set body. is_space c)"
          then have "dropWhile is_space ((x # body) @ fence @ after) =
                     dropWhile is_space (fence @ after)"
            by (intro dropWhile_append2) auto
          also have "\<dots> = fence @ after" by (rule prefix_fence_dropWhile) simp
          finally show False using False xs by simp
        qed
        then have "rstrip (x # body) = x # rstrip body" by (rule rstrip_Cons)
        then show ?thesis using nt np Cons Some p by simp
      qed
    qed
  qed
  then show ?thesis by (simp only: tail_def)
qed

lemma rmatch_closing:
  "rmatch (Greedy Space # LazyGroup Any # Greedy Space # lits fence) s =
     (case find_sub fence s of
        None \<Rightarrow> None
      | Some (body, after) \<Rightarrow> Some (body @ fence, rstrip (lstrip body)))"
proof -
  define lz where "lz = LazyGroup Any # Greedy Space # lits fence"
  have lz: "rmatch lz s =
     (case find_sub fence s of
        None \<Rightarrow> None
      | Some (body, after) \<Rightarrow> Some (body @ fence, rstrip body))" for s
    unfolding lz_def by (rule rmatch_lazy_fence)
  have "rmatch (Greedy Space # lz) s =
     (case find_sub fence s of
        None \<Rightarrow> None
      | Some (body, after) \<Rightarrow> Some (body @ fence, rstrip (lstrip body)))"
  proof (induction s)
    case Nil
    have "find_sub fence [] = None" by (simp add: fence_simps)
    then show ?case by (simp add: lz)
  next
    case (Cons x xs)
    show ?case
    proof (cases "is_space x")
      case True
      then have np: "\<not> prefix fence (x # xs)" by (rule prefix_fence_space)
      show ?thesis
      proof (cases "find_sub fence xs")
        case None
        then show ?thesis using True np Cons by (simp add: lz)
      next
        case (Some p)
        then show ?thesis using True np Cons by (cases p) (simp add: lstrip_def)
      qed
    next
      case False
      have "rmatch (Greedy Space # lz) (x # xs) = rmatch lz (x # xs)"
        using False by simp
      also have "\<dots> = (case find_sub fence (x # xs) of None \<Rightarrow> None
                   | Some (body, after) \<Rightarrow> Some (body @ fence, rstrip body))"
        by (rule lz)
      also have "\<dots> = (case find_sub fence (x # xs) of None \<Rightarrow> None
                   | Some (body, after) \<Rightarrow> Some (body @ fence, rstrip (lstrip body)))"
      proof (cases "find_sub fence (x # xs)")
        case None
        then show ?thesis by simp
      next
        case (Some p)
        obtain body after where p: "p = (body, after)" by (cases p)
        have "x # xs = body @ fence @ after" using find_sub_SomeD Some p by blast
        then have "lstrip body = body" using False by (cases body) (auto simp: lstrip_def)
        then show ?thesis using Some p by simp
      qed
      finally show ?thesis .
    qed
  qed
  then show ?thesis by (simp only: lz_def)
qed

lemma rmatch_fenced_pattern:
  "rmatch fenced_pattern s =
     (if prefix fence_json s then
        (case find_sub fence (drop (length fence_json) s) of
           None \<Rightarrow> None
         | Some (body, after) \<Rightarrow> Some (fence_json @ body @ fence, rstrip (lstrip body)))
      else None)"
proof -
  have "rmatch fenced_pattern s =
        rmatch (lits fence_json @ (Greedy Space # LazyGroup Any # Greedy Space # lits fence)) s"
    by (simp add: fenced_pattern_def)
  also have "\<dots> = (if prefix fence_json s
       then map_option (\<lambda>(g0, g1). (fence_json @ g0, g1))
              (rmatch (Greedy Space # LazyGroup Any # Greedy Space # lits fence)
                 (drop (length fence_json) s))
       else None)"
    by (rule rmatch_lits)
  finally show ?thesis
    by (simp add: rmatch_closing split: option.splits)
qed

lemma find_sub_suffix_None:
  assumes "find_sub pat r = None" "suffix r' r"
  shows "find_sub pat r' = None"
proof -
  from assms(1) have "\<not> sublist pat r" by (simp add: find_sub_None)
  moreover from assms(2) have "sublist r' r" by (rule suffix_imp_sublist)
  ultimately have "\<not> sublist pat r'" using sublist_order.order.trans by blast
  then show ?thesis by (simp add: find_sub_None)
qed

lemma re_search_fenced:
  "re_search fenced_pattern s =
     (case find_sub fence_json s of
        None \<Rightarrow> None
      | Some (before, rest) \<Rightarrow>
          (case find_sub fence rest of
             None \<Rightarrow> None
           | Some (body, after) \<Rightarrow> Some (fence_json @ body @ fence, rstrip (lstrip body))))"
proof (induction s)
  case Nil
  show ?case by (simp add: rmatch_fenced_pattern fence_simps)
next
  case (Cons x xs)
  show ?case
  proof (cases "prefix fence_json (x # xs)")
    case False
    then show ?thesis using Cons
      by (simp add: rmatch_fenced_pattern split: option.splits)
  next
    case True
    define rest where "rest = drop (length fence_json) (x # xs)"
    from True have fs: "find_sub fence_json (x # xs) = Some ([], rest)"
      by (simp add: rest_def)
    show ?thesis
    proof (cases "find_sub fence rest")
      case (Some p)
      then show ?thesis using True fs unfolding rest_def
        by (cases p) (simp add: rmatch_fenced_pattern)
    next
      case None
      have "re_search fenced_pattern xs = None"
      proof (cases "find_sub fence_json xs")
        case None
        then show ?thesis using Cons by simp
      next
        case (Some q)
        obtain before' rest' where q: "q = (before', rest')" by (cases q)
        have xs: "xs = before' @ fence_json @ rest'" using find_sub_SomeD Some q by blast
        have "suffix rest' rest"
        proof -
          have "x # xs = (x # before' @ fence_json) @ rest'" using xs by simp
          moreover have "length fence_json \<le> length (x # before' @ fence_json)" by simp
          ultimately have "rest = drop (length fence_json) (x # before' @ fence_json) @ rest'"
            unfolding rest_def by (metis drop_append diff_is_0_eq drop_0)
          then show ?thesis by (simp add: suffix_def)
        qed
        with None have "find_sub fence rest' = None" by (rule find_sub_suffix_None)
        then show ?thesis using Cons Some q by simp
      qed
      then show ?thesis using True fs None unfolding rest_def
        by (simp add: rmatch_fenced_pattern)
    qed
  qed
qed

lemma fenced_group1: "map_option group1 (re_search fenced_pattern s) = first_fenced_block s"
  by (simp add: re_search_fenced first_fenced_block_def group1_def split: option.splits)

lemma brace_group0: "map_option group0 (re_search brace_pattern s) = brace_span s"
  by (simp add: re_search_brace group0_def option.map_comp comp_def option.map_ident)

lemma case_fenced_match:
  "(case re_search fenced_pattern t of Some m \<Rightarrow> g (group1 m) | None \<Rightarrow> d) =
   (case first_fenced_block t of Some inner \<Rightarrow> g inner | None \<Rightarrow> d)"
  using fenced_group1[of t] by (auto split: option.splits)

lemma case_brace_match:
  "(case re_search brace_pattern t of Some m \<Rightarrow> g (group0 m) | None \<Rightarrow> d) =
   (case brace_span t of Some span \<Rightarrow> g span | None \<Rightarrow> d)"
  using brace_group0[of t] by (auto split: option.splits)

lemma extract_char:
  "extract_json_from_response loads t =
     (case try_loads loads t of
        Return v \<Rightarrow> (Inr v, [t])
      | Raise e \<Rightarrow> (Inl e, [t])
      | Pass \<Rightarrow>
          (let tried2 = (case first_fenced_block t of Some inner \<Rightarrow> [inner] | None \<Rightarrow> [])
           in case (case first_fenced_block t of
                      Some inner \<Rightarrow> try_loads loads inner | None \<Rightarrow> Pass) of
                Return v \<Rightarrow> (Inr v, t # tried2)
              | Raise e \<Rightarrow> (Inl e, t # tried2)
              | Pass \<Rightarrow>
                  (let tried3 = (case brace_span t of Some span \<Rightarrow> [span] | None \<Rightarrow> [])
                   in case (case brace_span t of
                              Some span \<Rightarrow> try_loads loads span | None \<Rightarrow> Pass) of
                        Return v \<Rightarrow> (Inr v, t # tried2 @ tried3)
                      | Raise e \<Rightarrow> (Inl e, t # tried2 @ tried3)
                      | Pass \<Rightarrow> (Inr (parse_failure t), t # tried2 @ tried3))))"
  unfolding extract_json_from_response_def Let_def
    case_fenced_match[where g = "\<lambda>x. [x]"] case_fenced_match[where g = "try_loads loads"]
    case_brace_match[where g = "\<lambda>x. [x]"] case_brace_match[where g = "try_loads loads"] ..


lemma try_loads_Return: "loads s = Inr v \<Longrightarrow> try_loads loads s = Return v"
  by (simp add: try_loads_def)


section \<open>The response extractor: precedence, fallback, brace span, totality\<close>

lemma find_sub_no_head:
  assumes "pat \<noteq> []" "hd pat \<notin> set s"
  shows "find_sub pat s = None"
proof -
  have "\<not> sublist pat s"
  proof
    assume "sublist pat s"
    then have "set pat \<subseteq> set s" by (rule set_mono_sublist)
    with assms show False by (cases pat) auto
  qed
  then show ?thesis by (simp add: find_sub_None)
qed

lemma first_fenced_block_no_backtick: "96 \<notin> set s \<Longrightarrow> first_fenced_block s = None"
  using find_sub_no_head[of fence_json s]
  by (simp add: first_fenced_block_def fence_simps)

lemma brace_span_no_lbrace: "lbrace \<notin> set s \<Longrightarrow> brace_span s = None"
proof -
  assume "lbrace \<notin> set s"
  then have d: "dropWhile (\<lambda>c. c \<noteq> lbrace) s = []" by (auto simp: dropWhile_eq_Nil_conv)
  show ?thesis unfolding brace_span_def d by simp
qed






lemma ex_loads_direct: "ex_loads ex_direct = Inr ex_object"
  by (simp add: ex_loads_def decoder_of_def)



lemma ex_braces_rejected: "try_loads ex_loads ex_braces = Pass"
  by (simp add: try_loads_def ex_loads_def decoder_of_def ex_braces_def ex_direct_def ascii_def)

lemma ex_braces_no_block: "first_fenced_block ex_braces = None"
  by (rule first_fenced_block_no_backtick) (simp add: ex_braces_def ascii_def)






lemma ex_digits_length: "length ex_digits = 4301"
  by (simp add: ex_digits_def)

















text \<open>
  C3. When the brace strategy is reached, what it hands to the decoder is the part of the
  full text from its first opening brace through its last closing brace, and a value the
  decoder gives for that part is returned. With two objects in the text the part covers
  both.
\<close>

theorem brace_span_attempt:
  assumes "try_loads loads t = Pass" "fenced_fails loads t"
    and "t = pre @ lbrace # mid @ rbrace # post" "lbrace \<notin> set pre" "rbrace \<notin> set post"
  shows "last (snd (extract_json_from_response loads t)) = lbrace # mid @ [rbrace] \<and>
         (\<forall>v. loads (lbrace # mid @ [rbrace]) = Inr v \<longrightarrow>
              fst (extract_json_from_response loads t) = Inr v)"
proof -
  have "brace_span t = Some (lbrace # mid @ [rbrace])"
    unfolding assms(3) using assms(4,5) by (rule brace_span_decomp)
  then show ?thesis using assms(1,2)
    by (auto simp add: extract_char fenced_fails_def Let_def try_loads_def
        split: option.splits stage.splits sum.splits if_splits)
qed

lemma ex_two_objects_rejected: "try_loads ex_loads ex_two_objects = Pass"
  by (simp add: try_loads_def ex_loads_def decoder_of_def ex_two_objects_def ex_direct_def
      ascii_def)

lemma ex_two_objects_no_block: "fenced_fails ex_loads ex_two_objects"
  by (simp add: fenced_fails_def first_fenced_block_no_backtick ex_two_objects_def ascii_def)

theorem brace_span_attempt_witness:
  \<open>last (snd (extract_json_from_response ex_loads ex_two_objects)) =
     ascii ''{"a":1} y {"b":2}'' \<and>
   fst (extract_json_from_response ex_loads ex_braces) = Inr ex_object\<close>
proof
  have split: \<open>ex_two_objects =
      ascii ''x '' @ lbrace # ascii ''"a":1} y {"b":2'' @ rbrace # ascii '' z''\<close>
    by (simp add: ex_two_objects_def ascii_def lbrace_def rbrace_def)
  have \<open>last (snd (extract_json_from_response ex_loads ex_two_objects)) =
      lbrace # ascii ''"a":1} y {"b":2'' @ [rbrace]\<close>
    using brace_span_attempt[OF ex_two_objects_rejected ex_two_objects_no_block split]
    by (simp add: ascii_def lbrace_def rbrace_def)
  then show \<open>last (snd (extract_json_from_response ex_loads ex_two_objects)) =
      ascii ''{"a":1} y {"b":2}''\<close>
    by (simp add: ascii_def lbrace_def rbrace_def)
next
  have split: \<open>ex_braces = ascii ''blah '' @ lbrace # ascii ''"a":1'' @ rbrace # ascii '' blah''\<close>
    by (simp add: ex_braces_def ascii_def lbrace_def rbrace_def)
  have fails: "fenced_fails ex_loads ex_braces"
    by (simp add: fenced_fails_def ex_braces_no_block)
  have \<open>ex_loads (lbrace # ascii ''"a":1'' @ [rbrace]) = Inr ex_object\<close>
    using ex_loads_direct by (simp add: ex_direct_def ascii_def lbrace_def rbrace_def)
  then show "fst (extract_json_from_response ex_loads ex_braces) = Inr ex_object"
    using brace_span_attempt[OF ex_braces_rejected fails split]
    by (simp add: ascii_def lbrace_def rbrace_def)
qed


lemma ex_loads_contract: "\<forall>s. case ex_loads s of Inr v \<Rightarrow> True | Inl e \<Rightarrow> is_decode_error e"
  by (simp add: ex_loads_def decoder_of_def split: option.splits)

lemma extract_plain:
  "extract_json_from_response ex_loads ex_plain = (Inr (parse_failure ex_plain), [ex_plain])"
proof -
  have "try_loads ex_loads ex_plain = Pass"
    by (simp add: try_loads_def ex_loads_def decoder_of_def ex_plain_def ex_direct_def ascii_def)
  moreover have "first_fenced_block ex_plain = None"
    by (rule first_fenced_block_no_backtick) (simp add: ex_plain_def ascii_def)
  moreover have "brace_span ex_plain = None"
    by (rule brace_span_no_lbrace) (simp add: ex_plain_def ascii_def lbrace_def)
  ultimately show ?thesis by (simp add: extract_char)
qed




section \<open>The model client adapter\<close>

lemmas io_defs =
  io_return_def io_raise_def io_of_def io_bind_def io_catch_def io_call_def io_new_def
  io_get_def

lemma prompt_for_regions:
  "prompt_for (ascii ''A'') = Some prompt_A" "prompt_for (ascii ''B'') = Some prompt_B"
  "prompt_for (ascii ''C'') = Some prompt_C" "prompt_for (ascii ''D'') = Some prompt_D"
  by (simp_all add: prompt_for_def prompts_def ascii_def)

lemma extract_result_cases:
  assumes "fst (extract_json_from_response loads t) = Inr r"
  shows "r = parse_failure t \<or> (\<exists>s. loads s = Inr r)"
proof -
  have rt: "try_loads loads s = Return v \<Longrightarrow> loads s = Inr v" for s v
    by (auto simp: try_loads_def split: sum.splits if_splits)
  show ?thesis
    using assms rt
    by (auto simp add: extract_char Let_def split: option.splits stage.splits)
qed

lemma call_path_value:
  assumes "call_path env img s k m w = (Inr v, w')"
  shows "\<exists>t. fst (extract_json_from_response (json_loads env) t) = Inr v"
  using assms
  by (auto simp add: call_path_def io_defs split: prod.splits sum.splits option.splits)
    (metis fst_conv)

lemma call_path_remote_calls:
  assumes "call_path env img s k m w = (r, w')"
  shows "length (filter is_remote_call (calls w')) \<le> Suc (length (filter is_remote_call (calls w)))"
proof -
  have loads: "filter is_remote_call (map Loads xs) = []" for xs
    by (induction xs) auto
  show ?thesis
    using assms
    by (auto simp add: call_path_def io_defs loads split: prod.splits sum.splits option.splits)
qed

lemma call_path_remote_failure:
  assumes "genai_configure env k = Inr ()" "image_save env (objects w ! img) = Inr d"
    "genai_GenerativeModel env m = Inr ()" "prompt_for s = Some p"
    "generate_content env m p d = Inl e"
  shows "fst (call_path env img s k m w) = Inl e"
  using assms by (simp add: call_path_def io_defs)

lemma adapter_with_key:
  assumes "k \<noteq> []"
  shows "analyze_section_with_gemini env img s (Some k) m w =
           (case call_path env img s k m w of
              (Inl e, w') \<Rightarrow> (Inr (error_object (api_error_prefix @ str_of e)), w')
            | (Inr v, w') \<Rightarrow> (Inr v, w'))"
  using assms by (simp add: analyze_section_with_gemini_def io_catch_def io_return_def)

text \<open>
  C4. When the API key is absent or empty the adapter returns the error object whose
  \<open>error\<close> field says that the key is not set, and the world is as before: no call to the
  remote model, no encoding of the image, no model object, nothing else.
\<close>

theorem missing_key_short_circuit:
  assumes "api_key = None \<or> api_key = Some []"
  shows "analyze_section_with_gemini env img section_name api_key model_name w =
           (Inr (JObj [(ascii ''error'', JStr missing_key_message)]), w)"
  using assms
  by (auto simp add: analyze_section_with_gemini_def io_return_def error_object_def)

theorem missing_key_short_circuit_witness:
  "analyze_section_with_gemini (mock_env (\<lambda>p. Inr (Inr ex_direct))) 0 (ascii ''A'') None ex_model
     ex_world =
     (Inr (JObj [(ascii ''error'', JStr missing_key_message)]), ex_world) \<and>
   analyze_section_with_gemini (mock_env (\<lambda>p. Inr (Inr ex_direct))) 0 (ascii ''A'') (Some [])
     ex_model ex_world =
     (Inr (JObj [(ascii ''error'', JStr missing_key_message)]), ex_world)"
proof
  show "analyze_section_with_gemini (mock_env (\<lambda>p. Inr (Inr ex_direct))) 0 (ascii ''A'') None
      ex_model ex_world =
      (Inr (JObj [(ascii ''error'', JStr missing_key_message)]), ex_world)"
    by (rule missing_key_short_circuit) simp
  show "analyze_section_with_gemini (mock_env (\<lambda>p. Inr (Inr ex_direct))) 0 (ascii ''A'')
      (Some []) ex_model ex_world =
      (Inr (JObj [(ascii ''error'', JStr missing_key_message)]), ex_world)"
    by (rule missing_key_short_circuit) simp
qed

text \<open>
  C5. With a key, the adapter always returns a value: whatever any step of the call path
  raises, the remote call among them, is caught and becomes the error object whose \<open>error\<close>
  field ends with the message of the exception. The remote model is called at most once.
\<close>

theorem adapter_contains_exceptions:
  assumes "k \<noteq> []"
  shows "\<exists>v w'. analyze_section_with_gemini env img s (Some k) m w = (Inr v, w') \<and>
           (\<forall>e w1. call_path env img s k m w = (Inl e, w1) \<longrightarrow>
              v = JObj [(ascii ''error'', JStr (api_error_prefix @ str_of e))]) \<and>
           (\<forall>p d e. genai_configure env k = Inr () \<and> image_save env (objects w ! img) = Inr d \<and>
              genai_GenerativeModel env m = Inr () \<and> prompt_for s = Some p \<and>
              generate_content env m p d = Inl e \<longrightarrow>
              v = JObj [(ascii ''error'', JStr (api_error_prefix @ str_of e))]) \<and>
           length (filter is_remote_call (calls w')) \<le>
             Suc (length (filter is_remote_call (calls w)))"
proof -
  obtain r w1 where cp: "call_path env img s k m w = (r, w1)"
    by (cases "call_path env img s k m w")
  have count: "length (filter is_remote_call (calls w1)) \<le>
      Suc (length (filter is_remote_call (calls w)))"
    using cp by (rule call_path_remote_calls)
  show ?thesis
  proof (cases r)
    case (Inl e)
    have "analyze_section_with_gemini env img s (Some k) m w =
        (Inr (error_object (api_error_prefix @ str_of e)), w1)"
      using cp Inl by (simp add: adapter_with_key[OF assms])
    moreover have "\<forall>p d e'. genai_configure env k = Inr () \<and>
        image_save env (objects w ! img) = Inr d \<and> genai_GenerativeModel env m = Inr () \<and>
        prompt_for s = Some p \<and> generate_content env m p d = Inl e' \<longrightarrow> e' = e"
      using call_path_remote_failure[of env k w img _ m s] cp Inl by fastforce
    ultimately show ?thesis using cp Inl count by (auto simp: error_object_def)
  next
    case (Inr v)
    have "analyze_section_with_gemini env img s (Some k) m w = (Inr v, w1)"
      using cp Inr by (simp add: adapter_with_key[OF assms])
    moreover have "\<forall>p d e'. \<not> (genai_configure env k = Inr () \<and>
        image_save env (objects w ! img) = Inr d \<and> genai_GenerativeModel env m = Inr () \<and>
        prompt_for s = Some p \<and> generate_content env m p d = Inl e')"
      using call_path_remote_failure[of env k w img _ m s] cp Inr by fastforce
    ultimately show ?thesis using cp Inr count by auto
  qed
qed

lemma ex_key_not_empty: "ex_key \<noteq> []"
  by (simp add: ex_key_def ascii_def)

theorem adapter_contains_exceptions_witness:
  "ex_key \<noteq> [] \<and>
   fst (analyze_section_with_gemini (mock_env (\<lambda>p. Inl (LibraryError (ascii ''quota'')))) 0
          (ascii ''A'') (Some ex_key) ex_model ex_world) =
     Inr (JObj [(ascii ''error'', JStr (api_error_prefix @ ascii ''quota''))])"
proof -
  let ?env = "mock_env (\<lambda>p. Inl (LibraryError (ascii ''quota'')))"
  have pa: "prompt_for (ascii ''A'') = Some prompt_A"
    by (simp add: prompt_for_def prompts_def ascii_def)
  have steps: "genai_configure ?env ex_key = Inr () \<and>
      image_save ?env (objects ex_world ! 0) = Inr [137, 80, 78, 71] \<and>
      genai_GenerativeModel ?env ex_model = Inr () \<and> prompt_for (ascii ''A'') = Some prompt_A \<and>
      generate_content ?env ex_model prompt_A [137, 80, 78, 71] =
        Inl (LibraryError (ascii ''quota''))"
    using pa by (simp add: mock_env_def)
  from adapter_contains_exceptions[OF ex_key_not_empty, of ?env 0 "ascii ''A''" ex_model ex_world]
  obtain v w' where
    r: "analyze_section_with_gemini ?env 0 (ascii ''A'') (Some ex_key) ex_model ex_world =
        (Inr v, w')" and
    c: "\<forall>p d e. genai_configure ?env ex_key = Inr () \<and>
          image_save ?env (objects ex_world ! 0) = Inr d \<and>
          genai_GenerativeModel ?env ex_model = Inr () \<and> prompt_for (ascii ''A'') = Some p \<and>
          generate_content ?env ex_model p d = Inl e \<longrightarrow>
          v = JObj [(ascii ''error'', JStr (api_error_prefix @ str_of e))]"
    by blast
  from c steps have "v = JObj [(ascii ''error'', JStr (api_error_prefix @ ascii ''quota''))]"
    by (metis str_of.simps(5))
  with r show ?thesis using ex_key_not_empty by simp
qed

lemma adapter_result_cases:
  "\<exists>v w'. analyze_section_with_gemini env img s api_key m w = (Inr v, w') \<and>
     (v = JObj [(ascii ''error'', JStr missing_key_message)] \<or>
      (\<exists>e. v = JObj [(ascii ''error'', JStr (api_error_prefix @ str_of e))]) \<or>
      (\<exists>t. v = JObj [(ascii ''error'', JStr error_marker),
                      (ascii ''raw_response'', JStr (raw_response_of t))]) \<or>
      (\<exists>t. json_loads env t = Inr v))"
proof (cases "api_key = None \<or> api_key = Some []")
  case True
  then show ?thesis
    by (auto simp add: analyze_section_with_gemini_def io_return_def error_object_def)
next
  case False
  then obtain k where k: "api_key = Some k" "k \<noteq> []" by auto
  obtain r w1 where cp: "call_path env img s k m w = (r, w1)"
    by (cases "call_path env img s k m w")
  show ?thesis
  proof (cases r)
    case (Inl e)
    then show ?thesis using cp k by (auto simp add: adapter_with_key error_object_def)
  next
    case (Inr v)
    with cp obtain t where "fst (extract_json_from_response (json_loads env) t) = Inr v"
      using call_path_value by blast
    then have "v = parse_failure t \<or> (\<exists>s. json_loads env s = Inr v)"
      by (rule extract_result_cases)
    then show ?thesis using cp k Inr
      by (auto simp add: adapter_with_key parse_failure_def)
  qed
qed

lemma call_path_value_run:
  assumes "call_path env img s k m w = (Inr v, w')"
  shows "\<exists>p d t. prompt_for s = Some p \<and> image_save env (objects w ! img) = Inr d \<and>
           generate_content env m p d = Inr (Inr t) \<and>
           fst (extract_json_from_response (json_loads env) t) = Inr v"
  using assms
  by (auto simp add: call_path_def io_defs split: prod.splits sum.splits option.splits)

lemma extract_result_attempts:
  assumes "fst (extract_json_from_response loads t) = Inr r"
  shows "(r = parse_failure t \<and> try_loads loads t = Pass \<and> fenced_fails loads t \<and>
          brace_fails loads t) \<or>
         (\<exists>x\<in>set (snd (extract_json_from_response loads t)). loads x = Inr r)"
proof -
  have rt: "try_loads loads s = Return v \<Longrightarrow> loads s = Inr v" for s v
    by (auto simp: try_loads_def split: sum.splits if_splits)
  show ?thesis
    using assms rt
    by (auto simp add: extract_char Let_def fenced_fails_def brace_fails_def
        split: option.splits stage.splits)
qed

text \<open>
  C9, as the code has it. The adapter always returns a value for a region, and which one is
  fixed by the run. Without a key it is the error object of the missing key, with the
  single field \<open>error\<close>. With a key, when the call path raises an exception it is the error
  object with the single field \<open>error\<close> that carries the message of that exception. When
  the call path returns, the remote model has answered the prompt of the region with a text,
  and the result is what the extractor makes of that text: the error object of a parse
  failure, with the fields \<open>error\<close> and \<open>raw_response\<close>, the raw response being that text
  truncated, when all three strategies fail on it; or else the value the decoder gave for one
  of the texts the extractor handed to it, which is not checked against the structured
  shape.
\<close>

theorem analysis_result_cases:
  "(\<exists>v w'. analyze_section_with_gemini env img s api_key m w = (Inr v, w')) \<and>
   (api_key = None \<or> api_key = Some [] \<longrightarrow>
      analyze_section_with_gemini env img s api_key m w =
        (Inr (JObj [(ascii ''error'', JStr missing_key_message)]), w)) \<and>
   (\<forall>k. api_key = Some k \<and> k \<noteq> [] \<longrightarrow>
      (\<forall>e w'. call_path env img s k m w = (Inl e, w') \<longrightarrow>
         analyze_section_with_gemini env img s api_key m w =
           (Inr (JObj [(ascii ''error'', JStr (api_error_prefix @ str_of e))]), w')) \<and>
      (\<forall>v w'. call_path env img s k m w = (Inr v, w') \<longrightarrow>
         analyze_section_with_gemini env img s api_key m w = (Inr v, w') \<and>
         (\<exists>p d t. prompt_for s = Some p \<and> image_save env (objects w ! img) = Inr d \<and>
            generate_content env m p d = Inr (Inr t) \<and>
            fst (extract_json_from_response (json_loads env) t) = Inr v \<and>
            ((v = JObj [(ascii ''error'', JStr error_marker),
                        (ascii ''raw_response'', JStr (raw_response_of t))] \<and>
              try_loads (json_loads env) t = Pass \<and> fenced_fails (json_loads env) t \<and>
              brace_fails (json_loads env) t) \<or>
             (\<exists>x\<in>set (snd (extract_json_from_response (json_loads env) t)).
                json_loads env x = Inr v)))))"
proof (intro conjI allI impI)
  show "\<exists>v w'. analyze_section_with_gemini env img s api_key m w = (Inr v, w')"
    using adapter_result_cases[of env img s api_key m w] by blast
next
  assume "api_key = None \<or> api_key = Some []"
  then show "analyze_section_with_gemini env img s api_key m w =
      (Inr (JObj [(ascii ''error'', JStr missing_key_message)]), w)"
    by (auto simp add: analyze_section_with_gemini_def io_return_def error_object_def)
next
  fix k e w'
  assume "api_key = Some k \<and> k \<noteq> []" "call_path env img s k m w = (Inl e, w')"
  then show "analyze_section_with_gemini env img s api_key m w =
      (Inr (JObj [(ascii ''error'', JStr (api_error_prefix @ str_of e))]), w')"
    by (simp add: adapter_with_key error_object_def)
next
  fix k v w'
  assume "api_key = Some k \<and> k \<noteq> []" "call_path env img s k m w = (Inr v, w')"
  then show "analyze_section_with_gemini env img s api_key m w = (Inr v, w')"
    by (simp add: adapter_with_key)
next
  fix k v w'
  assume "api_key = Some k \<and> k \<noteq> []" and cp: "call_path env img s k m w = (Inr v, w')"
  from call_path_value_run[OF cp] obtain p d t where
    run: "prompt_for s = Some p" "image_save env (objects w ! img) = Inr d"
      "generate_content env m p d = Inr (Inr t)"
      "fst (extract_json_from_response (json_loads env) t) = Inr v"
    by blast
  from extract_result_attempts[OF run(4)]
  have "(v = JObj [(ascii ''error'', JStr error_marker),
                   (ascii ''raw_response'', JStr (raw_response_of t))] \<and>
         try_loads (json_loads env) t = Pass \<and> fenced_fails (json_loads env) t \<and>
         brace_fails (json_loads env) t) \<or>
        (\<exists>x\<in>set (snd (extract_json_from_response (json_loads env) t)).
           json_loads env x = Inr v)"
    by (simp add: parse_failure_def)
  with run show "\<exists>p d t. prompt_for s = Some p \<and> image_save env (objects w ! img) = Inr d \<and>
      generate_content env m p d = Inr (Inr t) \<and>
      fst (extract_json_from_response (json_loads env) t) = Inr v \<and>
      ((v = JObj [(ascii ''error'', JStr error_marker),
                  (ascii ''raw_response'', JStr (raw_response_of t))] \<and>
        try_loads (json_loads env) t = Pass \<and> fenced_fails (json_loads env) t \<and>
        brace_fails (json_loads env) t) \<or>
       (\<exists>x\<in>set (snd (extract_json_from_response (json_loads env) t)).
          json_loads env x = Inr v))"
    by blast
qed

theorem analysis_result_cases_witness:
  "fst (analyze_section_with_gemini (mock_env (\<lambda>p. Inr (Inr ex_plain))) 0 (ascii ''A'')
          (Some ex_key) ex_model ex_world) =
     Inr (JObj [(ascii ''error'', JStr error_marker), (ascii ''raw_response'', JStr ex_plain)])"
proof -
  let ?env = "mock_env (\<lambda>p. Inr (Inr ex_plain))"
  have "fst (call_path ?env 0 (ascii ''A'') ex_key ex_model ex_world) =
      Inr (parse_failure ex_plain)"
    by (simp add: call_path_def io_defs mock_env_def prompt_for_regions extract_plain)
  then obtain w1 where cp: "call_path ?env 0 (ascii ''A'') ex_key ex_model ex_world =
      (Inr (parse_failure ex_plain), w1)"
    by (metis prod.collapse)
  have "analyze_section_with_gemini ?env 0 (ascii ''A'') (Some ex_key) ex_model ex_world =
      (Inr (parse_failure ex_plain), w1)"
    using analysis_result_cases[of ?env 0 "ascii ''A''" "Some ex_key" ex_model ex_world]
      cp ex_key_not_empty
    by blast
  moreover have "length ex_plain \<le> 500" by (simp add: ex_plain_def ascii_def)
  ultimately show ?thesis by (simp add: parse_failure_def raw_response_of_def)
qed

text \<open>
  C9, as stated, fails: when the remote model answers \<^verbatim>\<open>{"a":1}\<close> the result for the region
  is that object, which is neither a structured record nor an error record.
\<close>

theorem analysis_result_shape_counterexample:
  "fst (analyze_section_with_gemini (mock_env (\<lambda>p. Inr (Inr ex_direct))) 0 (ascii ''A'')
          (Some ex_key) ex_model ex_world) = Inr ex_object \<and>
   \<not> structured_record ex_object \<and> \<not> error_record ex_object"
proof (intro conjI)
  have pa: "prompt_for (ascii ''A'') = Some prompt_A"
    by (simp add: prompt_for_def prompts_def ascii_def)
  have "extract_json_from_response ex_loads ex_direct = (Inr ex_object, [ex_direct])"
    using ex_loads_direct by (simp add: extract_char try_loads_Return)
  then have "fst (call_path (mock_env (\<lambda>p. Inr (Inr ex_direct))) 0 (ascii ''A'') ex_key ex_model
      ex_world) = Inr ex_object"
    using pa by (simp add: call_path_def io_defs mock_env_def)
  then obtain w1 where "call_path (mock_env (\<lambda>p. Inr (Inr ex_direct))) 0 (ascii ''A'') ex_key
      ex_model ex_world = (Inr ex_object, w1)"
    by (metis prod.collapse)
  then show "fst (analyze_section_with_gemini (mock_env (\<lambda>p. Inr (Inr ex_direct))) 0
      (ascii ''A'') (Some ex_key) ex_model ex_world) = Inr ex_object"
    by (simp add: adapter_with_key[OF ex_key_not_empty])
next
  show "\<not> structured_record ex_object"
    by (simp add: structured_record_def ex_object_def ascii_def)
next
  show "\<not> error_record ex_object"
    by (simp add: error_record_def ex_object_def ascii_def)
qed


section \<open>The image cropper\<close>

text \<open>
  C8. For a rectangle inside the source image the cropper returns a new image object of
  size \<open>(x2 - x1, y2 - y1)\<close> whose pixel \<open>(i, j)\<close> is the pixel \<open>(x1 + i, y1 + j)\<close> of the
  source; every object that existed, the source among them, is as before, and no external
  call is made.
\<close>

theorem crop_size:
  assumes "img < length (objects w)" "img_size (objects w ! img) = (width, height)"
    and "0 \<le> x1" "x1 < x2" "x2 \<le> width" "0 \<le> y1" "y1 < y2" "y2 \<le> height"
  shows "\<exists>w'. crop_image_by_bbox img [x1, y1, x2, y2] w = (Inr (length (objects w)), w') \<and>
           img_size (objects w' ! length (objects w)) = (x2 - x1, y2 - y1) \<and>
           (\<forall>i j. 0 \<le> i \<and> i < x2 - x1 \<and> 0 \<le> j \<and> j < y2 - y1 \<longrightarrow>
              img_pixel (objects w' ! length (objects w)) (i, j) =
              img_pixel (objects w ! img) (x1 + i, y1 + j)) \<and>
           length (objects w') = Suc (length (objects w)) \<and>
           (\<forall>a < length (objects w). objects w' ! a = objects w ! a) \<and>
           calls w' = calls w"
  using assms
  by (simp add: crop_image_by_bbox_def image_crop_def io_defs nth_append)

theorem crop_size_witness:
  "fst (crop_image_by_bbox 0 [47, 156, 880, 499] ex_world) = Inr 1 \<and>
   img_size (objects (snd (crop_image_by_bbox 0 [47, 156, 880, 499] ex_world)) ! 1) = (833, 343) \<and>
   objects (snd (crop_image_by_bbox 0 [47, 156, 880, 499] ex_world)) ! 0 = ex_image"
proof -
  have "0 < length (objects ex_world)" "img_size (objects ex_world ! 0) = (1000, 1300)"
    by (simp_all add: ex_world_def ex_image_def)
  from crop_size[OF this, of 47 880 156 499]
  obtain w' where
    "crop_image_by_bbox 0 [47, 156, 880, 499] ex_world = (Inr (length (objects ex_world)), w')"
    "img_size (objects w' ! length (objects ex_world)) = (880 - 47, 499 - 156)"
    "\<forall>a < length (objects ex_world). objects w' ! a = objects ex_world ! a"
    by auto
  then show ?thesis by (simp add: ex_world_def)
qed


section \<open>The prompts\<close>

lemma names_regionD:
  assumes "names_region p (title, vocabulary)"
  shows "p \<noteq> [] \<and> sublist title p \<and> (\<forall>term\<in>set vocabulary. sublist term p)"
  using assms by (auto simp add: names_region_def list_all_iff)

lemma sublist_step:
  "sublist (p # ps) (x # xs) \<longleftrightarrow> prefix (p # ps) (x # xs) \<or> sublist (p # ps) xs"
  by (simp add: sublist_Cons_right)

lemma prompt_A_names:
  "names_region prompt_A
     ([0x3042, 0x306A, 0x305F, 0x306E, 0x4ED5, 0x4E8B, 0x306B, 0x3064, 0x3044, 0x3066],
      [[0x305D, 0x3046, 0x3060],
       [0x307E, 0x3042, 0x305D, 0x3046, 0x3060],
       [0x3084, 0x3084, 0x3061, 0x304C, 0x3046],
       [0x3061, 0x304C, 0x3046]])"
  by (simp add: names_region_def prompt_A_def ascii_def sublist_step)

lemma prompt_B_names:
  "names_region prompt_B
     ([0x6700, 0x8FD1, 49, 0x304B, 0x6708, 0x9593, 0x306E, 0x3042, 0x306A, 0x305F, 0x306E,
       0x72B6, 0x614B, 0x306B, 0x3064, 0x3044, 0x3066],
      [[0x307B, 0x3068, 0x3093, 0x3069, 0x3044, 0x3064, 0x3082, 0x3042, 0x3063, 0x305F],
       [0x3057, 0x3070, 0x3057, 0x3070, 0x3042, 0x3063, 0x305F],
       [0x3068, 0x304D, 0x3069, 0x304D, 0x3042, 0x3063, 0x305F],
       [0x307B, 0x3068, 0x3093, 0x3069, 0x306A, 0x304B, 0x3063, 0x305F]])"
  by (simp add: names_region_def prompt_B_def ascii_def sublist_step)

lemma prompt_C_names:
  "names_region prompt_C
     ([0x3042, 0x306A, 0x305F, 0x306E, 0x5468, 0x308A, 0x306E, 0x65B9, 0x3005, 0x306B, 0x3064,
       0x3044, 0x3066],
      [[0x975E, 0x5E38, 0x306B],
       [0x304B, 0x306A, 0x308A],
       [0x591A, 0x5C11],
       [0x306A, 0x3044],
       [0x5168, 0x304F, 0x306A, 0x3044]])"
  by (simp add: names_region_def prompt_C_def ascii_def sublist_step)

lemma prompt_D_names:
  "names_region prompt_D
     ([0x6E80, 0x8DB3, 0x5EA6, 0x306B, 0x3064, 0x3044, 0x3066],
      [[0x6E80, 0x8DB3],
       [0x307E, 0x3042, 0x6E80, 0x8DB3],
       [0x3084, 0x3084, 0x4E0D, 0x6E80, 0x8DB3],
       [0x4E0D, 0x6E80, 0x8DB3]])"
  by (simp add: names_region_def prompt_D_def ascii_def sublist_step)

text \<open>
  C7. The regions are A, B, C and D, and for each of them the prompt builder has a prompt,
  which is not empty and holds the title of the region and every term of its answer
  vocabulary.
\<close>

theorem prompts_name_regions:
  "map fst regions = [ascii ''A'', ascii ''B'', ascii ''C'', ascii ''D''] \<and>
   (\<forall>(r, title, vocabulary) \<in> set regions.
      \<exists>p. prompt_for r = Some p \<and> p \<noteq> [] \<and> sublist title p \<and>
          (\<forall>term\<in>set vocabulary. sublist term p))"
proof
  show "map fst regions = [ascii ''A'', ascii ''B'', ascii ''C'', ascii ''D'']"
    by (simp add: regions_def)
  show "\<forall>(r, title, vocabulary) \<in> set regions.
      \<exists>p. prompt_for r = Some p \<and> p \<noteq> [] \<and> sublist title p \<and>
          (\<forall>term\<in>set vocabulary. sublist term p)"
    unfolding regions_def
    using names_regionD[OF prompt_A_names] names_regionD[OF prompt_B_names]
      names_regionD[OF prompt_C_names] names_regionD[OF prompt_D_names]
    by (simp add: prompt_for_regions)
qed

theorem prompts_name_regions_witness:
  "prompt_for (ascii ''A'') = Some prompt_A \<and> prompt_A \<noteq> [] \<and>
   sublist [0x3042, 0x306A, 0x305F, 0x306E, 0x4ED5, 0x4E8B, 0x306B, 0x3064, 0x3044, 0x3066]
     prompt_A \<and>
   sublist [0x305D, 0x3046, 0x3060] prompt_A \<and>
   sublist [0x307E, 0x3042, 0x305D, 0x3046, 0x3060] prompt_A \<and>
   sublist [0x3084, 0x3084, 0x3061, 0x304C, 0x3046] prompt_A \<and>
   sublist [0x3061, 0x304C, 0x3046] prompt_A"
proof -
  have "(ascii ''A'',
         [0x3042, 0x306A, 0x305F, 0x306E, 0x4ED5, 0x4E8B, 0x306B, 0x3064, 0x3044, 0x3066],
         [[0x305D, 0x3046, 0x3060],
          [0x307E, 0x3042, 0x305D, 0x3046, 0x3060],
          [0x3084, 0x3084, 0x3061, 0x304C, 0x3046],
          [0x3061, 0x304C, 0x3046]]) \<in> set regions"
    by (simp add: regions_def)
  with prompts_name_regions show ?thesis
    by (fastforce simp add: prompt_for_regions)
qed


section \<open>The loop of main\<close>

lemma show_result_dict: "is_dict v \<Longrightarrow> show_result rp v = Inr ()"
proof (cases v)
  case (JObj kvs)
  have "map_of kvs key = None \<Longrightarrow> (key, b) \<in> set kvs \<Longrightarrow> False" for key b
    by (metis map_of_eq_None_iff fst_conv image_eqI)
  then show ?thesis using JObj
    by (auto simp add: show_result_def sum_bind_def split: option.splits)
qed simp_all

lemma update_new_key: "k \<notin> set (map fst al) \<Longrightarrow> AList.update k v al = al @ [(k, v)]"
  by (induction al) auto

lemma crop_returns:
  assumes "x1 \<le> x2" "y1 \<le> y2"
  shows "\<exists>w'. crop_image_by_bbox img [x1, y1, x2, y2] w = (Inr (length (objects w)), w')"
  using assms by (simp add: crop_image_by_bbox_def image_crop_def io_defs)

lemma adapter_returns_dict:
  assumes "\<forall>t v. json_loads env t = Inr v \<longrightarrow> is_dict v"
  shows "\<exists>v w'. analyze_section_with_gemini env img s api_key m w = (Inr v, w') \<and> is_dict v"
  using adapter_result_cases[of env img s api_key m w] assms by fastforce

lemma main_loop_body_dict:
  assumes "\<forall>t v. json_loads env t = Inr v \<longrightarrow> is_dict v" "x1 \<le> x2" "y1 \<le> y2"
  shows "\<exists>v w'. main_loop_body env img k m results (s, [x1, y1, x2, y2]) w =
           (Inr (AList.update s v results), w') \<and> is_dict v"
proof -
  obtain w1 where c: "crop_image_by_bbox img [x1, y1, x2, y2] w = (Inr (length (objects w)), w1)"
    using crop_returns[OF assms(2,3)] by blast
  obtain v w2 where a: "analyze_section_with_gemini env (length (objects w)) s (Some k) m w1 =
      (Inr v, w2)" and d: "is_dict v"
    using adapter_returns_dict[OF assms(1)] by blast
  have "main_loop_body env img k m results (s, [x1, y1, x2, y2]) w =
      (Inr (AList.update s v results), w2)"
    using c a show_result_dict[OF d]
    by (simp add: main_loop_body_def io_bind_def io_return_def io_of_def)
  with d show ?thesis by blast
qed

lemma main_loop_items_dicts:
  assumes "\<forall>t v. json_loads env t = Inr v \<longrightarrow> is_dict v"
    and "\<forall>(s, b)\<in>set items. \<exists>x1 y1 x2 y2. b = [x1, y1, x2, y2] \<and> x1 \<le> x2 \<and> y1 \<le> y2"
    and "distinct (map fst results @ map fst items)"
    and "list_all (\<lambda>(s, v). is_dict v) results"
  shows "\<exists>res w'. main_loop_items env img k m results items w = (Inr res, w') \<and>
           map fst res = map fst results @ map fst items \<and>
           list_all (\<lambda>(s, v). is_dict v) res"
  using assms(2-4)
proof (induction items arbitrary: results w)
  case Nil
  then show ?case by (simp add: io_return_def)
next
  case (Cons item items)
  obtain s b where item: "item = (s, b)" by (cases item)
  with Cons.prems(1) obtain x1 y1 x2 y2 where b: "b = [x1, y1, x2, y2]" "x1 \<le> x2" "y1 \<le> y2"
    by auto
  obtain v w1 where r: "main_loop_body env img k m results (s, [x1, y1, x2, y2]) w =
      (Inr (AList.update s v results), w1)" and d: "is_dict v"
    using main_loop_body_dict[OF assms(1) b(2,3)] by blast
  have new: "s \<notin> set (map fst results)" using Cons.prems(2) item by auto
  then have upd: "AList.update s v results = results @ [(s, v)]" by (rule update_new_key)
  have "\<exists>res w'. main_loop_items env img k m (results @ [(s, v)]) items w1 = (Inr res, w') \<and>
           map fst res = map fst (results @ [(s, v)]) @ map fst items \<and>
           list_all (\<lambda>(s, v). is_dict v) res"
    using Cons.prems item d by (intro Cons.IH) auto
  then show ?case using r upd item b(1) by (simp add: io_bind_def)
qed

text \<open>
  What holds of the loop: when the decoder yields dictionaries only, the loop ends with
  one entry for each region, in the order A, B, C, D, whatever fails inside the adapter.
\<close>

lemma main_loop_dicts:
  assumes "\<forall>t v. json_loads env t = Inr v \<longrightarrow> is_dict v"
  shows "\<exists>res w'. main_loop env img k m w = (Inr res, w') \<and>
           map fst res = [ascii ''A'', ascii ''B'', ascii ''C'', ascii ''D''] \<and>
           list_all (\<lambda>(s, v). is_dict v) res"
proof -
  have "\<exists>res w'. main_loop_items env img k m [] BBOX_COORDINATES w = (Inr res, w') \<and>
           map fst res = map fst BBOX_COORDINATES \<and>
           list_all (\<lambda>(s, v). is_dict v) res"
    using main_loop_items_dicts[OF assms, where items = BBOX_COORDINATES and results = "[]"]
    by (simp add: BBOX_COORDINATES_def ascii_def)
  then show ?thesis by (simp add: main_loop_def BBOX_COORDINATES_def)
qed

lemma extract_null:
  "extract_json_from_response ex_loads (ascii ''null'') = (Inr JNull, [ascii ''null''])"
proof -
  have "ex_loads (ascii ''null'') = Inr JNull"
    by (simp add: ex_loads_def decoder_of_def ex_direct_def ascii_def)
  then show ?thesis by (simp add: extract_char try_loads_Return)
qed

lemma region_A_null:
  "\<exists>w'. main_loop_body (mock_env null_for_A) 0 ex_key ex_model []
           (ascii ''A'', [47, 156, 880, 499]) ex_world =
           (Inl (TypeError (ascii ''argument of type '' @ [39] @ ascii ''NoneType'' @ [39] @
                            ascii '' is not iterable'')), w') \<and>
         calls w' =
           [Configure ex_key, EncodePNG (833, 343), InitModel ex_model,
            GenerateContent ex_model prompt_A [137, 80, 78, 71], Loads (ascii ''null'')]"
  by (simp add: main_loop_body_def crop_image_by_bbox_def image_crop_def
      analyze_section_with_gemini_def call_path_def io_defs mock_env_def null_for_A_def
      prompt_for_regions extract_null show_result_def sum_bind_def ex_world_def
      ex_key_not_empty)

text \<open>
  C6 fails on the code. When the remote model answers the prompt of region A with the text
  \<open>null\<close>, the decoder gives \<open>None\<close>, the adapter returns it, and the test
  \<^verbatim>\<open>"error" in result\<close> of the loop raises \<open>TypeError\<close>: the loop ends there, no result
  mapping is produced, and the regions B, C and D are never sent to the model.
\<close>

theorem loop_halts_on_scalar:
  "fst (main_loop (mock_env null_for_A) 0 ex_key ex_model ex_world) =
     Inl (TypeError (ascii ''argument of type '' @ [39] @ ascii ''NoneType'' @ [39] @
                     ascii '' is not iterable'')) \<and>
   filter is_remote_call
     (calls (snd (main_loop (mock_env null_for_A) 0 ex_key ex_model ex_world))) =
     [GenerateContent ex_model prompt_A [137, 80, 78, 71]]"
proof -
  obtain w' where
    r: "main_loop_body (mock_env null_for_A) 0 ex_key ex_model []
          (ascii ''A'', [47, 156, 880, 499]) ex_world =
          (Inl (TypeError (ascii ''argument of type '' @ [39] @ ascii ''NoneType'' @ [39] @
                           ascii '' is not iterable'')), w')" and
    c: "calls w' =
          [Configure ex_key, EncodePNG (833, 343), InitModel ex_model,
           GenerateContent ex_model prompt_A [137, 80, 78, 71], Loads (ascii ''null'')]"
    using region_A_null by blast
  have "main_loop (mock_env null_for_A) 0 ex_key ex_model ex_world =
      (Inl (TypeError (ascii ''argument of type '' @ [39] @ ascii ''NoneType'' @ [39] @
                       ascii '' is not iterable'')), w')"
    using r by (simp add: main_loop_def BBOX_COORDINATES_def io_bind_def)
  then show ?thesis using c by simp
qed

end
